theory Spec2Isabelle
  imports Main
begin

section \<open>The assembly document\<close>

text \<open>
  The program of \<^verbatim>\<open>packages/jsii-rosetta/lib/commands/transliterate.ts\<close> works on the
  JSON document read from a \<^verbatim>\<open>.jsii\<close> file. The records below hold the fields the program
  reads or writes; a field that may be missing from the JSON object is an \<open>option\<close>.
  Every documentable element carries the optional field \<^verbatim>\<open>docs\<close>, so the records of the
  elements extend one record with that field.
\<close>

record Docs =
  example :: "string option"
  summary :: "string option"

record Documentable =
  docs :: "Docs option"

record Parameter = Documentable +
  parameter_name :: string

record Method = Documentable +
  method_name :: string
  parameters :: "Parameter list option"

record Property = Documentable +
  property_name :: string

record Initializer = Documentable +
  initializer_parameters :: "Parameter list option"

record EnumMember = Documentable +
  member_name :: string

text \<open>
  \<^verbatim>\<open>TypeKind\<close> has the three members the program names; \<open>OtherKind k\<close> is any other value
  \<open>k\<close> found in the \<^verbatim>\<open>kind\<close> field of a type read from disk.
\<close>

datatype TypeKind = Class | Interface | Enum | OtherKind string

record Type = Documentable +
  fqn :: string
  kind :: TypeKind
  initializer :: "Initializer option"
  methods :: "Method list option"
  properties :: "Property list option"
  members :: "EnumMember list option"

record ReadMe =
  markdown :: "string option"

text \<open>
  \<^verbatim>\<open>types\<close> is an object keyed by fully qualified name; \<^verbatim>\<open>Object.values\<close> walks it in
  insertion order, so it is an association list.
\<close>

record Assembly =
  assembly_name :: string
  version :: string
  readme :: "ReadMe option"
  types :: "(string \<times> Type) list option"

record Translation =
  language :: string
  source :: string
  didCompile :: bool


section \<open>The disclaimer\<close>

text \<open>\<^verbatim>\<open>Array.prototype.join\<close> on an array of strings.\<close>

fun join :: "string \<Rightarrow> string list \<Rightarrow> string" where
  "join sep [] = []"
| "join sep [x] = x"
| "join sep (x # y # ys) = x @ sep @ join sep (y # ys)"

text \<open>The inner function \<^verbatim>\<open>commentToken\<close> of \<^verbatim>\<open>prefixDisclaimer\<close>; it reads the translation
  of the enclosing call.\<close>

definition commentToken :: "Translation \<Rightarrow> string" where
  "commentToken translation =
     (if language translation = ''python'' then ''#''
      else if language translation = ''ruby'' then ''#''
      else if language translation = ''csharp'' then ''//''
      else if language translation = ''java'' then ''//''
      else if language translation = ''go'' then ''//''
      else ''//'')"

definition prefixDisclaimer :: "Translation \<Rightarrow> string" where
  "prefixDisclaimer translation =
     (let comment = commentToken translation;
          disclaimer =
            (if didCompile translation
             then ''This example was automatically transliterated.''
             else ''This example was automatically transliterated with incomplete type information. It may not work as-is.'')
      in join [CHR 0x0A]
           [comment @ '' '' @ disclaimer,
            comment @ '' See https://github.com/aws/jsii/issues/826 for more information.'',
            '''',
            source translation])"


section \<open>Errors, the state of a run and the collaborators\<close>

text \<open>
  Every \<^verbatim>\<open>throw\<close> of the program, and every exception that reaches it from a function it
  calls, is a value of \<open>error\<close>:
  \<^item> \<open>UnsupportedTypeKind k\<close> is \<^verbatim>\<open>new Error(`Unsupported type kind: ${kind}`)\<close>;
  \<^item> \<open>NotIterable\<close> is the \<^verbatim>\<open>TypeError\<close> of a \<^verbatim>\<open>for ... of\<close> over \<^verbatim>\<open>undefined\<close>;
  \<^item> \<open>StrictModeFailure\<close> is
    \<^verbatim>\<open>new Error('Strict mode is enabled and some examples failed compilation!')\<close>;
  \<^item> \<open>NoSuchFile p\<close> and \<open>NotJson p\<close> are the failures of \<^verbatim>\<open>readJson\<close> on the path \<open>p\<close>,
    and \<open>WriteFailed p\<close> is the failure of \<^verbatim>\<open>writeJson\<close> on it;
  \<^item> \<open>Thrown m\<close> is an exception thrown by the translation engine or by the snippet
    preparation.
\<close>

datatype error =
    UnsupportedTypeKind string
  | NotIterable
  | StrictModeFailure
  | NoSuchFile string
  | NotJson string
  | WriteFailed string
  | Thrown string

text \<open>A file holds a JSON document of the shape of an assembly, or something that does not
  parse.\<close>

datatype File = Json Assembly | Garbage

text \<open>
  What a run does to the outside is kept as a list of events, in the order of the calls:
  the reads of files and the writes that succeeded, the calls of the translation engine, the
  printing of the diagnostics and the lines of the debug log (without the measured time).
\<close>

datatype 'sn Event =
    LoadTablet string
  | ReadJson string
  | AddAssembly string
  | TranslateMarkdown string string
  | TranslateSnippet 'sn string
  | WriteJson string
  | PrintDiagnostics
  | DebugDone string string string

text \<open>
  The state of a run: the files, the \<^verbatim>\<open>Rosetta\<close> instance (of a type \<open>'r\<close> that the
  program never looks into) and the events so far. A computation takes the state and
  returns its outcome with the state it leaves; after an exception the state is the one
  reached when it was thrown.
\<close>

record ('r, 'sn) State =
  disk :: "string \<Rightarrow> File option"
  rosetta :: 'r
  events :: "'sn Event list"

definition return_ok :: "'a \<Rightarrow> 's \<Rightarrow> (error + 'a) \<times> 's" where
  "return_ok a s = (Inr a, s)"

definition throw :: "error \<Rightarrow> 's \<Rightarrow> (error + 'a) \<times> 's" where
  "throw e s = (Inl e, s)"

definition and_then ::
  "('s \<Rightarrow> (error + 'a) \<times> 's) \<Rightarrow> ('a \<Rightarrow> 's \<Rightarrow> (error + 'b) \<times> 's) \<Rightarrow> 's \<Rightarrow> (error + 'b) \<times> 's" where
  "and_then m f s = (case m s of (Inl e, s') \<Rightarrow> (Inl e, s') | (Inr a, s') \<Rightarrow> f a s')"

text \<open>
  A \<^verbatim>\<open>for (const x of xs)\<close> loop whose body may change \<open>x\<close> in place: the body returns the
  element as it leaves it, the loop returns the elements in order and stops at the first
  exception. \<open>forEachDo\<close> is the loop whose body changes only the state.
\<close>

fun forEach ::
  "('a \<Rightarrow> 's \<Rightarrow> (error + 'a) \<times> 's) \<Rightarrow> 'a list \<Rightarrow> 's \<Rightarrow> (error + 'a list) \<times> 's" where
  "forEach body [] s = (Inr [], s)"
| "forEach body (x # xs) s =
     (case body x s of
        (Inl e, s') \<Rightarrow> (Inl e, s')
      | (Inr x', s') \<Rightarrow>
          (case forEach body xs s' of
             (Inl e, s'') \<Rightarrow> (Inl e, s'')
           | (Inr xs', s'') \<Rightarrow> (Inr (x' # xs'), s'')))"

fun forEachDo ::
  "('a \<Rightarrow> 's \<Rightarrow> (error + unit) \<times> 's) \<Rightarrow> 'a list \<Rightarrow> 's \<Rightarrow> (error + unit) \<times> 's" where
  "forEachDo body [] s = (Inr (), s)"
| "forEachDo body (x # xs) s =
     (case body x s of
        (Inl e, s') \<Rightarrow> (Inl e, s')
      | (Inr u, s') \<Rightarrow> forEachDo body xs s')"

text \<open>
  The functions the program imports and this file does not define are the fields of
  \<open>Collaborators\<close>: \<^verbatim>\<open>path.resolve\<close>, the paths on which \<^verbatim>\<open>writeJson\<close> fails, the constants
  \<^verbatim>\<open>SPEC_FILE_NAME\<close> and \<^verbatim>\<open>SnippetParameters.$PROJECT_DIRECTORY\<close>, the constructor and the
  methods of \<^verbatim>\<open>Rosetta\<close>, \<^verbatim>\<open>typeScriptSnippetFromSource\<close> and \<^verbatim>\<open>fixturize\<close>. A method of the engine takes
  the engine's state and returns the state it leaves; a function that can throw returns
  the message of its exception on the left. What the collaborators read from disk (tablets,
  fixtures) is taken as part of them: they neither read the files the run writes nor write
  the files it reads.
\<close>

record ('r, 'sn) Collaborators =
  resolve :: "string \<Rightarrow> string \<Rightarrow> string"
  writeFails :: "string \<Rightarrow> bool"
  SPEC_FILE_NAME :: string
  PROJECT_DIRECTORY :: string
  newRosetta :: "bool \<Rightarrow> bool \<Rightarrow> bool option \<Rightarrow> string list \<Rightarrow> 'r"
  loadTabletFromFile :: "'r \<Rightarrow> string \<Rightarrow> (string + unit) \<times> 'r"
  addAssembly :: "'r \<Rightarrow> Assembly \<Rightarrow> string \<Rightarrow> (string + unit) \<times> 'r"
  translateSnippetsInMarkdown ::
    "'r \<Rightarrow> string \<Rightarrow> string \<Rightarrow> bool \<Rightarrow> (Translation \<Rightarrow> string \<times> string) \<Rightarrow> string
       \<Rightarrow> (string + string) \<times> 'r"
  translateSnippet :: "'r \<Rightarrow> 'sn \<Rightarrow> string \<Rightarrow> (string + Translation option) \<times> 'r"
  printDiagnostics :: "'r \<Rightarrow> 'r"
  hasErrors :: "'r \<Rightarrow> bool"
  typeScriptSnippetFromSource :: "string \<Rightarrow> string \<Rightarrow> bool \<Rightarrow> (string \<times> string) list \<Rightarrow> 'sn"
  fixturize :: "'sn \<Rightarrow> bool \<Rightarrow> string + 'sn"

text \<open>A call of a method of the engine: the event, the state the engine leaves, and the
  exception if it threw.\<close>

definition thrown :: "string + 'a \<Rightarrow> error + 'a" where
  "thrown r = (case r of Inl m \<Rightarrow> Inl (Thrown m) | Inr a \<Rightarrow> Inr a)"

definition rosetta_loadTabletFromFile ::
  "('r, 'sn) Collaborators \<Rightarrow> string \<Rightarrow> ('r, 'sn) State \<Rightarrow> (error + unit) \<times> ('r, 'sn) State" where
  "rosetta_loadTabletFromFile env path s =
     (case loadTabletFromFile env (rosetta s) path of
        (res, r') \<Rightarrow> (thrown res, s\<lparr>rosetta := r', events := events s @ [LoadTablet path]\<rparr>))"

definition rosetta_addAssembly ::
  "('r, 'sn) Collaborators \<Rightarrow> Assembly \<Rightarrow> string \<Rightarrow> ('r, 'sn) State
     \<Rightarrow> (error + unit) \<times> ('r, 'sn) State" where
  "rosetta_addAssembly env assembly directory s =
     (case addAssembly env (rosetta s) assembly directory of
        (res, r') \<Rightarrow> (thrown res, s\<lparr>rosetta := r', events := events s @ [AddAssembly directory]\<rparr>))"

definition rosetta_translateSnippetsInMarkdown ::
  "('r, 'sn) Collaborators \<Rightarrow> string \<Rightarrow> string \<Rightarrow> bool \<Rightarrow> (Translation \<Rightarrow> string \<times> string)
     \<Rightarrow> string \<Rightarrow> ('r, 'sn) State \<Rightarrow> (error + string) \<times> ('r, 'sn) State" where
  "rosetta_translateSnippetsInMarkdown env md targetLanguage strict' translationToCodeBlock
       compileDirectory s =
     (case translateSnippetsInMarkdown env (rosetta s) md targetLanguage strict'
             translationToCodeBlock compileDirectory of
        (res, r') \<Rightarrow>
          (thrown res,
           s\<lparr>rosetta := r',
             events := events s @ [TranslateMarkdown targetLanguage compileDirectory]\<rparr>))"

definition rosetta_translateSnippet ::
  "('r, 'sn) Collaborators \<Rightarrow> 'sn \<Rightarrow> string \<Rightarrow> ('r, 'sn) State
     \<Rightarrow> (error + Translation option) \<times> ('r, 'sn) State" where
  "rosetta_translateSnippet env snippet targetLanguage s =
     (case translateSnippet env (rosetta s) snippet targetLanguage of
        (res, r') \<Rightarrow>
          (thrown res,
           s\<lparr>rosetta := r', events := events s @ [TranslateSnippet snippet targetLanguage]\<rparr>))"

definition rosetta_printDiagnostics ::
  "('r, 'sn) Collaborators \<Rightarrow> ('r, 'sn) State \<Rightarrow> (error + unit) \<times> ('r, 'sn) State" where
  "rosetta_printDiagnostics env s =
     (Inr (), s\<lparr>rosetta := printDiagnostics env (rosetta s),
                events := events s @ [PrintDiagnostics]\<rparr>)"

text \<open>\<^verbatim>\<open>readJson\<close> and \<^verbatim>\<open>writeJson\<close> of \<^verbatim>\<open>fs-extra\<close>. Each \<^verbatim>\<open>readJson\<close> parses the file
  anew, so the value it returns shares nothing with the value of another call.\<close>

definition readJson :: "string \<Rightarrow> ('r, 'sn) State \<Rightarrow> (error + Assembly) \<times> ('r, 'sn) State" where
  "readJson path s =
     ((case disk s path of
         None \<Rightarrow> Inl (NoSuchFile path)
       | Some Garbage \<Rightarrow> Inl (NotJson path)
       | Some (Json a) \<Rightarrow> Inr a),
      s\<lparr>events := events s @ [ReadJson path]\<rparr>)"

definition writeJson ::
  "('r, 'sn) Collaborators \<Rightarrow> string \<Rightarrow> Assembly \<Rightarrow> ('r, 'sn) State
     \<Rightarrow> (error + unit) \<times> ('r, 'sn) State" where
  "writeJson env path a s =
     (if writeFails env path then (Inl (WriteFailed path), s)
      else (Inr (),
            s\<lparr>disk := (disk s)(path \<mapsto> Json a), events := events s @ [WriteJson path]\<rparr>))"

definition debug ::
  "string \<Rightarrow> string \<Rightarrow> string \<Rightarrow> ('r, 'sn) State \<Rightarrow> (error + unit) \<times> ('r, 'sn) State" where
  "debug n v targetLanguage s =
     (Inr (), s\<lparr>events := events s @ [DebugDone n v targetLanguage]\<rparr>)"


section \<open>The walk over a type\<close>

text \<open>
  The inner function \<^verbatim>\<open>transliterateDocs\<close> of \<^verbatim>\<open>transliterateType\<close>, with the variables it
  takes from the enclosing call as arguments. It returns the \<^verbatim>\<open>docs\<close> object as it leaves
  it. An example that is missing or the empty string is falsy.
\<close>

definition transliterateDocs ::
  "('r, 'sn) Collaborators \<Rightarrow> string \<Rightarrow> string \<Rightarrow> bool \<Rightarrow> Docs option \<Rightarrow> ('r, 'sn) State
     \<Rightarrow> (error + Docs option) \<times> ('r, 'sn) State" where
  "transliterateDocs env targetLanguage workingDirectory loose' node =
     (case node of
        None \<Rightarrow> return_ok None
      | Some d \<Rightarrow>
          (case example d of
             None \<Rightarrow> return_ok (Some d)
           | Some ex \<Rightarrow>
               if ex = [] then return_ok (Some d)
               else
                 (case fixturize env
                         (typeScriptSnippetFromSource env ex ''example'' True
                            [(PROJECT_DIRECTORY env, workingDirectory)])
                         loose' of
                    Inl m \<Rightarrow> throw (Thrown m)
                  | Inr snippet \<Rightarrow>
                      and_then (rosetta_translateSnippet env snippet targetLanguage)
                        (\<lambda>translation.
                           case translation of
                             None \<Rightarrow> return_ok (Some d)
                           | Some tr \<Rightarrow>
                               return_ok (Some (d\<lparr>example := Some (prefixDisclaimer tr)\<rparr>))))))"

text \<open>The statements under \<^verbatim>\<open>case TypeKind.Interface\<close>, which \<^verbatim>\<open>case TypeKind.Class\<close> falls
  through to.\<close>

definition transliterateType_Interface ::
  "(Docs option \<Rightarrow> ('r, 'sn) State \<Rightarrow> (error + Docs option) \<times> ('r, 'sn) State) \<Rightarrow> Type
     \<Rightarrow> ('r, 'sn) State \<Rightarrow> (error + Type) \<times> ('r, 'sn) State" where
  "transliterateType_Interface transliterateDocs' ty =
     and_then
       (forEach
          (\<lambda>method.
             and_then (transliterateDocs' (docs method))
               (\<lambda>d. and_then
                  (forEach
                     (\<lambda>parameter.
                        and_then (transliterateDocs' (docs parameter))
                          (\<lambda>d'. return_ok (parameter\<lparr>docs := d'\<rparr>)))
                     (case parameters method of None \<Rightarrow> [] | Some ps \<Rightarrow> ps))
                  (\<lambda>ps'. return_ok
                     (method\<lparr>docs := d,
                             parameters := map_option (\<lambda>_. ps') (parameters method)\<rparr>))))
          (case methods ty of None \<Rightarrow> [] | Some ms \<Rightarrow> ms))
       (\<lambda>ms'.
          and_then
            (forEach
               (\<lambda>property.
                  and_then (transliterateDocs' (docs property))
                    (\<lambda>d. return_ok (property\<lparr>docs := d\<rparr>)))
               (case properties ty of None \<Rightarrow> [] | Some ps \<Rightarrow> ps))
            (\<lambda>ps'. return_ok
               (ty\<lparr>methods := map_option (\<lambda>_. ms') (methods ty),
                   properties := map_option (\<lambda>_. ps') (properties ty)\<rparr>)))"

text \<open>
  \<^verbatim>\<open>transliterateType\<close>. The parameter \<^verbatim>\<open>loose\<close> has the default \<^verbatim>\<open>false\<close>. The function
  returns the type as the walk leaves it.
\<close>

definition transliterateType ::
  "('r, 'sn) Collaborators \<Rightarrow> string \<Rightarrow> string \<Rightarrow> bool option \<Rightarrow> Type \<Rightarrow> ('r, 'sn) State
     \<Rightarrow> (error + Type) \<times> ('r, 'sn) State" where
  "transliterateType env targetLanguage workingDirectory loose' ty =
     (let transliterateDocs' =
            transliterateDocs env targetLanguage workingDirectory
              (case loose' of None \<Rightarrow> False | Some b \<Rightarrow> b)
      in and_then (transliterateDocs' (docs ty))
           (\<lambda>d. let ty1 = ty\<lparr>docs := d\<rparr> in
              case kind ty1 of
                Class \<Rightarrow>
                  and_then
                    (transliterateDocs'
                       (case initializer ty1 of None \<Rightarrow> None | Some i \<Rightarrow> docs i))
                    (\<lambda>d'. transliterateType_Interface transliterateDocs'
                       (ty1\<lparr>initializer :=
                              map_option (\<lambda>i. i\<lparr>docs := d'\<rparr>) (initializer ty1)\<rparr>))
              | Interface \<Rightarrow> transliterateType_Interface transliterateDocs' ty1
              | Enum \<Rightarrow>
                  (case members ty1 of
                     None \<Rightarrow> throw NotIterable
                   | Some ms \<Rightarrow>
                       and_then
                         (forEach
                            (\<lambda>member.
                               and_then (transliterateDocs' (docs member))
                                 (\<lambda>d'. return_ok (member\<lparr>docs := d'\<rparr>)))
                            ms)
                         (\<lambda>ms'. return_ok (ty1\<lparr>members := Some ms'\<rparr>)))
              | OtherKind k \<Rightarrow> throw (UnsupportedTypeKind k)))"


section \<open>Loading and the run\<close>

text \<open>The arrow function \<^verbatim>\<open>loader\<close> of \<^verbatim>\<open>loadAssemblies\<close>, for one directory.\<close>

definition loader ::
  "('r, 'sn) Collaborators \<Rightarrow> string \<Rightarrow> ('r, 'sn) State \<Rightarrow> (error + Assembly) \<times> ('r, 'sn) State" where
  "loader env directory = readJson (resolve env directory (SPEC_FILE_NAME env))"

text \<open>\<^verbatim>\<open>Map.prototype.set\<close>: a key that is present keeps its place.\<close>

fun map_set :: "('k \<times> 'v) list \<Rightarrow> 'k \<Rightarrow> 'v \<Rightarrow> ('k \<times> 'v) list" where
  "map_set [] k v = [(k, v)]"
| "map_set ((k', v') # m) k v =
     (if k' = k then (k, v) # m else (k', v') # map_set m k v)"

text \<open>The loop of \<^verbatim>\<open>loadAssemblies\<close>, with the map \<^verbatim>\<open>result\<close> built so far.\<close>

fun loadAssemblies_loop ::
  "('r, 'sn) Collaborators \<Rightarrow> string list
     \<Rightarrow> (string \<times> (('r, 'sn) State \<Rightarrow> (error + Assembly) \<times> ('r, 'sn) State)) list
     \<Rightarrow> ('r, 'sn) State
     \<Rightarrow> (error + (string \<times> (('r, 'sn) State \<Rightarrow> (error + Assembly) \<times> ('r, 'sn) State)) list)
          \<times> ('r, 'sn) State" where
  "loadAssemblies_loop env [] result = return_ok result"
| "loadAssemblies_loop env (directory # rest) result =
     and_then (loader env directory)
       (\<lambda>a. and_then (rosetta_addAssembly env a directory)
          (\<lambda>_. loadAssemblies_loop env rest (map_set result directory (loader env directory))))"

definition loadAssemblies ::
  "('r, 'sn) Collaborators \<Rightarrow> string list \<Rightarrow> ('r, 'sn) State
     \<Rightarrow> (error + (string \<times> (('r, 'sn) State \<Rightarrow> (error + Assembly) \<times> ('r, 'sn) State)) list)
          \<times> ('r, 'sn) State" where
  "loadAssemblies env directories = loadAssemblies_loop env directories []"

record TransliterateAssemblyOptions =
  loose :: "bool option"
  strict :: "bool option"
  tablet :: "string option"

text \<open>
  The body of the inner loop of \<^verbatim>\<open>transliterateAssembly\<close>, for one directory and one
  language, in the order of its statements: the markdown of the readme, the types, then the
  write and the line of the debug log.
\<close>

definition transliterateAssembly_readme ::
  "('r, 'sn) Collaborators \<Rightarrow> string \<Rightarrow> string \<Rightarrow> Assembly \<Rightarrow> ('r, 'sn) State
     \<Rightarrow> (error + Assembly) \<times> ('r, 'sn) State" where
  "transliterateAssembly_readme env location targetLanguage result =
     (case readme result of
        None \<Rightarrow> return_ok result
      | Some rm \<Rightarrow>
          (case markdown rm of
             None \<Rightarrow> return_ok result
           | Some md \<Rightarrow>
               if md = [] then return_ok result
               else
                 and_then
                   (rosetta_translateSnippetsInMarkdown env md targetLanguage True
                      (\<lambda>translation. (language translation, prefixDisclaimer translation))
                      location)
                   (\<lambda>md'. return_ok (result\<lparr>readme := Some (rm\<lparr>markdown := Some md'\<rparr>)\<rparr>))))"

definition transliterateAssembly_types ::
  "('r, 'sn) Collaborators \<Rightarrow> TransliterateAssemblyOptions \<Rightarrow> string \<Rightarrow> string \<Rightarrow> Assembly
     \<Rightarrow> ('r, 'sn) State \<Rightarrow> (error + Assembly) \<times> ('r, 'sn) State" where
  "transliterateAssembly_types env options location targetLanguage result =
     (case types result of
        None \<Rightarrow> return_ok result
      | Some ts \<Rightarrow>
          and_then
            (forEach
               (\<lambda>(n, ty).
                  and_then (transliterateType env targetLanguage location (loose options) ty)
                    (\<lambda>ty'. return_ok (n, ty')))
               ts)
            (\<lambda>ts'. return_ok (result\<lparr>types := Some ts'\<rparr>)))"

definition transliterateAssembly_body ::
  "('r, 'sn) Collaborators \<Rightarrow> TransliterateAssemblyOptions \<Rightarrow> string
     \<Rightarrow> (('r, 'sn) State \<Rightarrow> (error + Assembly) \<times> ('r, 'sn) State) \<Rightarrow> string
     \<Rightarrow> ('r, 'sn) State \<Rightarrow> (error + unit) \<times> ('r, 'sn) State" where
  "transliterateAssembly_body env options location loadAssembly targetLanguage =
     and_then loadAssembly
       (\<lambda>result.
          and_then (transliterateAssembly_readme env location targetLanguage result)
            (\<lambda>result1.
               and_then
                 (transliterateAssembly_types env options location targetLanguage result1)
                 (\<lambda>result2.
                    and_then
                      (writeJson env
                         (resolve env location (SPEC_FILE_NAME env @ ''.'' @ targetLanguage))
                         result2)
                      (\<lambda>_. debug (assembly_name result2) (version result2) targetLanguage))))"

text \<open>
  The state in which a run starts: the files on disk, the engine made by
  \<^verbatim>\<open>new Rosetta({includeCompilerDiagnostics: true, liveConversion: true, loose, targetLanguages})\<close>
  and no event.
\<close>

definition start ::
  "('r, 'sn) Collaborators \<Rightarrow> string list \<Rightarrow> TransliterateAssemblyOptions
     \<Rightarrow> (string \<Rightarrow> File option) \<Rightarrow> ('r, 'sn) State" where
  "start env targetLanguages options files =
     \<lparr>disk = files,
      rosetta = newRosetta env True True (loose options) targetLanguages,
      events = []\<rparr>"

text \<open>
  \<^verbatim>\<open>transliterateAssembly\<close>, from the files on disk. An option that is missing is falsy,
  and so is an empty tablet path.
\<close>

definition transliterateAssembly ::
  "('r, 'sn) Collaborators \<Rightarrow> string list \<Rightarrow> string list \<Rightarrow> TransliterateAssemblyOptions
     \<Rightarrow> (string \<Rightarrow> File option) \<Rightarrow> (error + unit) \<times> ('r, 'sn) State" where
  "transliterateAssembly env assemblyLocations targetLanguages options files =
     and_then
       (case tablet options of
          None \<Rightarrow> return_ok ()
        | Some path \<Rightarrow>
            if path = [] then return_ok () else rosetta_loadTabletFromFile env path)
       (\<lambda>_. and_then (loadAssemblies env assemblyLocations)
          (\<lambda>assemblies.
             and_then
               (forEachDo
                  (\<lambda>(location, loadAssembly).
                     forEachDo
                       (transliterateAssembly_body env options location loadAssembly)
                       targetLanguages)
                  assemblies)
               (\<lambda>_. and_then (rosetta_printDiagnostics env)
                  (\<lambda>_ s.
                     if hasErrors env (rosetta s) \<and> strict options = Some True
                     then throw StrictModeFailure s
                     else return_ok () s))))
       (start env targetLanguages options files)"


section \<open>The Docs nodes of a type, in the order of the walk\<close>

text \<open>
  The specification calls the function applied to each Docs node \<^verbatim>\<open>translateDocs\<close>: it is the
  inner function \<^verbatim>\<open>transliterateDocs\<close> as \<^verbatim>\<open>transliterateType\<close> calls it, with the default
  of \<^verbatim>\<open>loose\<close> filled in.
\<close>

definition translateDocs ::
  "('r, 'sn) Collaborators \<Rightarrow> string \<Rightarrow> string \<Rightarrow> bool option \<Rightarrow> Docs option \<Rightarrow> ('r, 'sn) State
     \<Rightarrow> (error + Docs option) \<times> ('r, 'sn) State" where
  "translateDocs env targetLanguage workingDirectory loose' =
     transliterateDocs env targetLanguage workingDirectory
       (case loose' of None \<Rightarrow> False | Some b \<Rightarrow> b)"

text \<open>
  The lists below follow the words of the specification: the Docs of the initializer (none
  when there is no initializer); for a method its own Docs and then the Docs of each
  parameter; for the handling of an interface the Docs of every method with its parameters
  and then the Docs of every property. A collection that is absent counts as empty.
\<close>

definition Initializer_docs :: "Type \<Rightarrow> Docs option" where
  "Initializer_docs ty = (case initializer ty of None \<Rightarrow> None | Some i \<Rightarrow> docs i)"

definition Method_docs :: "Method \<Rightarrow> Docs option list" where
  "Method_docs m = docs m # map docs (case parameters m of None \<Rightarrow> [] | Some ps \<Rightarrow> ps)"

definition Interface_docs :: "Type \<Rightarrow> Docs option list" where
  "Interface_docs ty =
     concat (map Method_docs (case methods ty of None \<Rightarrow> [] | Some ms \<Rightarrow> ms))
     @ map docs (case properties ty of None \<Rightarrow> [] | Some ps \<Rightarrow> ps)"

text \<open>
  Writing a list of Docs back to the nodes it was read from, in the same order: \<open>put_docs\<close>
  for a list of elements that carry a Docs each, \<open>put_Method_docs\<close> for a method and its
  parameters, \<open>put_Interface_docs\<close> for the methods and properties of a type and
  \<open>put_Class_docs\<close> for the type itself, its initializer, its methods and its properties.
\<close>

definition put_docs :: "('a Documentable_scheme) list \<Rightarrow> Docs option list \<Rightarrow> ('a Documentable_scheme) list" where
  "put_docs xs ds = map2 (\<lambda>x d. x\<lparr>docs := d\<rparr>) xs ds"

definition put_Method_docs :: "Method \<Rightarrow> Docs option list \<Rightarrow> Method" where
  "put_Method_docs m ds =
     m\<lparr>docs := hd ds, parameters := map_option (\<lambda>ps. put_docs ps (tl ds)) (parameters m)\<rparr>"

fun put_Methods_docs :: "Method list \<Rightarrow> Docs option list \<Rightarrow> Method list" where
  "put_Methods_docs [] ds = []"
| "put_Methods_docs (m # ms) ds =
     put_Method_docs m (take (length (Method_docs m)) ds)
     # put_Methods_docs ms (drop (length (Method_docs m)) ds)"

definition put_Interface_docs :: "Type \<Rightarrow> Docs option list \<Rightarrow> Type" where
  "put_Interface_docs ty ds =
     (let n = length (concat (map Method_docs (case methods ty of None \<Rightarrow> [] | Some ms \<Rightarrow> ms)))
      in ty\<lparr>methods := map_option (\<lambda>ms. put_Methods_docs ms (take n ds)) (methods ty),
            properties := map_option (\<lambda>ps. put_docs ps (drop n ds)) (properties ty)\<rparr>)"

definition put_Class_docs :: "Type \<Rightarrow> Docs option list \<Rightarrow> Type" where
  "put_Class_docs ty ds =
     put_Interface_docs
       (ty\<lparr>docs := hd ds,
           initializer := map_option (\<lambda>i. i\<lparr>docs := hd (tl ds)\<rparr>) (initializer ty)\<rparr>)
       (drop 2 ds)"

text \<open>The type with every absent \<^verbatim>\<open>methods\<close>, \<^verbatim>\<open>parameters\<close> and \<^verbatim>\<open>properties\<close> collection
  replaced by the empty one.\<close>

definition absent_as_empty :: "Type \<Rightarrow> Type" where
  "absent_as_empty ty =
     ty\<lparr>methods :=
          Some (map (\<lambda>m. m\<lparr>parameters :=
                               Some (case parameters m of None \<Rightarrow> [] | Some ps \<Rightarrow> ps)\<rparr>)
                  (case methods ty of None \<Rightarrow> [] | Some ms \<Rightarrow> ms)),
        properties := Some (case properties ty of None \<Rightarrow> [] | Some ps \<Rightarrow> ps)\<rparr>"


section \<open>What a step of a run leaves behind\<close>

text \<open>
  \<open>registered\<close> lists the directories of the \<^verbatim>\<open>addAssembly\<close> calls among some events, in
  order. The events of loading are the reading of a tablet, the reading of an assembly and
  its registration; the events of the iterations are the reading of an assembly, the
  translations, the write and the debug line; the events before the write of an iteration
  are the reading and the translations.
\<close>

fun registered :: "'sn Event list \<Rightarrow> string list" where
  "registered [] = []"
| "registered (AddAssembly d # es) = d # registered es"
| "registered (e # es) = registered es"

definition loading_event :: "'sn Event \<Rightarrow> bool" where
  "loading_event e =
     (case e of LoadTablet p \<Rightarrow> True | ReadJson p \<Rightarrow> True | AddAssembly d \<Rightarrow> True | _ \<Rightarrow> False)"

definition run_event :: "'sn Event \<Rightarrow> bool" where
  "run_event e = (case e of ReadJson p \<Rightarrow> True | TranslateMarkdown l d \<Rightarrow> True
      | TranslateSnippet sn l \<Rightarrow> True | WriteJson p \<Rightarrow> True | DebugDone n v l \<Rightarrow> True
      | _ \<Rightarrow> False)"

definition quiet_event :: "'sn Event \<Rightarrow> bool" where
  "quiet_event e =
     (case e of
        ReadJson p \<Rightarrow> True
      | TranslateMarkdown l d \<Rightarrow> True
      | TranslateSnippet sn l \<Rightarrow> True
      | _ \<Rightarrow> False)"

text \<open>The events of loading a tablet when the options name one, and the events of loading
  directories: each is read and then registered.\<close>

definition tablet_events :: "TransliterateAssemblyOptions \<Rightarrow> 'sn Event list" where
  "tablet_events options =
     (case tablet options of
        None \<Rightarrow> []
      | Some path \<Rightarrow> if path = [] then [] else [LoadTablet path])"

definition loading_events :: "('r, 'sn) Collaborators \<Rightarrow> string list \<Rightarrow> 'sn Event list" where
  "loading_events env dirs =
     concat (map (\<lambda>d. [ReadJson (resolve env d (SPEC_FILE_NAME env)), AddAssembly d]) dirs)"

text \<open>The file an iteration writes, the files a whole run may write, and a file that was
  written and is on disk.\<close>

definition output_path :: "('r, 'sn) Collaborators \<Rightarrow> string \<Rightarrow> string \<Rightarrow> string" where
  "output_path env location targetLanguage =
     resolve env location (SPEC_FILE_NAME env @ ''.'' @ targetLanguage)"

definition outputs :: "('r, 'sn) Collaborators \<Rightarrow> string list \<Rightarrow> string list \<Rightarrow> string set" where
  "outputs env dirs langs = (\<lambda>(d, l). output_path env d l) ` (set dirs \<times> set langs)"

definition written :: "string \<Rightarrow> ('r, 'sn) State \<Rightarrow> bool" where
  "written p s \<longleftrightarrow> WriteJson p \<in> set (events s) \<and> p \<in> dom (disk s)"

definition all_written :: "('r, 'sn) State \<Rightarrow> bool" where
  "all_written s \<longleftrightarrow> (\<forall>p. WriteJson p \<in> set (events s) \<longrightarrow> p \<in> dom (disk s))"

text \<open>
  \<open>step P W s s'\<close>: from \<open>s\<close> to \<open>s'\<close> the events grew by events that satisfy \<open>P\<close>, the files
  outside \<open>W\<close> are the same and no file went away. \<open>calm m\<close>: the computation \<open>m\<close> never
  raises the strict-mode failure.
\<close>

definition step :: "('sn Event \<Rightarrow> bool) \<Rightarrow> string set \<Rightarrow> ('r, 'sn) State \<Rightarrow> ('r, 'sn) State \<Rightarrow> bool" where
  "step P W s s' \<longleftrightarrow>
     (\<exists>evs. events s' = events s @ evs \<and> list_all P evs)
     \<and> (\<forall>p. p \<notin> W \<longrightarrow> disk s' p = disk s p)
     \<and> dom (disk s) \<subseteq> dom (disk s')"

definition calm :: "('s \<Rightarrow> (error + 'a) \<times> 's) \<Rightarrow> bool" where
  "calm m \<longleftrightarrow> (\<forall>s. fst (m s) \<noteq> Inl StrictModeFailure)"


section \<open>An engine and documents to evaluate the model on\<close>

text \<open>
  A small engine, whose state counts the snippets that failed to compile: the snippet \<^verbatim>\<open>?\<close>
  has no translation, the snippet \<^verbatim>\<open>!\<close> is translated but does not compile, every other
  snippet is translated and compiles; the fixture of the snippet \<^verbatim>\<open>#\<close> is missing. Paths are
  joined with a slash. Among the documents, \<open>test_rich_enum\<close> is an Enum with three members,
  two of them with an example, that also carries an initializer, a method with a parameter
  and a property, each with an example; \<open>test_mixed_files\<close> holds an assembly with a class
  whose example does not compile and then a type of an unsupported kind.
\<close>

definition test_env :: "(nat, string) Collaborators" where
  "test_env =
     \<lparr>resolve = (\<lambda>directory file. directory @ ''/'' @ file),
      writeFails = (\<lambda>path. False),
      SPEC_FILE_NAME = ''.jsii'',
      PROJECT_DIRECTORY = ''$directory'',
      newRosetta = (\<lambda>includeCompilerDiagnostics liveConversion loose' targetLanguages. 0),
      loadTabletFromFile = (\<lambda>r path. (Inr (), r)),
      addAssembly = (\<lambda>r assembly directory. (Inr (), r)),
      translateSnippetsInMarkdown =
        (\<lambda>r md l strict' f directory.
           (Inr (snd (f \<lparr>language = l, source = md, didCompile = True\<rparr>)), r)),
      translateSnippet =
        (\<lambda>r snippet l.
           if snippet = ''?'' then (Inr None, r)
           else if snippet = ''!''
           then (Inr (Some \<lparr>language = l, source = ''!'', didCompile = False\<rparr>), Suc r)
           else (Inr (Some \<lparr>language = l, source = snippet, didCompile = True\<rparr>), r)),
      printDiagnostics = (\<lambda>r. r),
      hasErrors = (\<lambda>r. 0 < r),
      typeScriptSnippetFromSource = (\<lambda>src where' strict' ps. src),
      fixturize =
        (\<lambda>snippet loose'.
           if snippet = ''#'' \<and> \<not> loose' then Inl ''fixture not found'' else Inr snippet)\<rparr>"

definition test_state :: "(nat, string) State" where
  "test_state = \<lparr>disk = (\<lambda>p. None), rosetta = 0, events = []\<rparr>"

definition test_enum :: Type where
  "test_enum =
     \<lparr>docs = Some \<lparr>example = Some ''x'', summary = None\<rparr>,
      fqn = ''pkg.Colour'', kind = Enum, initializer = None, methods = None,
      properties = None,
      members = Some [\<lparr>docs = None, member_name = ''RED''\<rparr>]\<rparr>"

definition test_alias :: Type where
  "test_alias =
     \<lparr>docs = Some \<lparr>example = Some ''x'', summary = None\<rparr>,
      fqn = ''pkg.Alias'', kind = OtherKind ''alias'', initializer = None, methods = None,
      properties = None, members = None\<rparr>"

definition test_class :: Type where
  "test_class =
     \<lparr>docs = None,
      fqn = ''pkg.Thing'', kind = Class,
      initializer =
        Some \<lparr>docs = Some \<lparr>example = Some ''!'', summary = None\<rparr>,
              initializer_parameters = None\<rparr>,
      methods = None, properties = None, members = None\<rparr>"

definition test_interface :: Type where
  "test_interface =
     \<lparr>docs = None,
      fqn = ''pkg.IThing'', kind = Interface, initializer = None,
      methods =
        Some [\<lparr>docs = Some \<lparr>example = Some ''m'', summary = None\<rparr>,
               method_name = ''run'',
               parameters =
                 Some [\<lparr>docs = Some \<lparr>example = Some ''?'', summary = None\<rparr>,
                        parameter_name = ''arg''\<rparr>]\<rparr>],
      properties = Some [\<lparr>docs = None, property_name = ''size''\<rparr>],
      members = None\<rparr>"

definition test_rich_enum :: Type where
  "test_rich_enum =
     \<lparr>docs = Some \<lparr>example = Some ''t'', summary = None\<rparr>,
      fqn = ''pkg.Size'', kind = Enum,
      initializer =
        Some \<lparr>docs = Some \<lparr>example = Some ''i'', summary = None\<rparr>,
              initializer_parameters = None\<rparr>,
      methods =
        Some [\<lparr>docs = Some \<lparr>example = Some ''m'', summary = None\<rparr>,
               method_name = ''run'',
               parameters =
                 Some [\<lparr>docs = Some \<lparr>example = Some ''p'', summary = None\<rparr>,
                        parameter_name = ''arg''\<rparr>]\<rparr>],
      properties =
        Some [\<lparr>docs = Some \<lparr>example = Some ''q'', summary = None\<rparr>,
               property_name = ''size''\<rparr>],
      members =
        Some [\<lparr>docs = Some \<lparr>example = Some ''a'', summary = None\<rparr>,
               member_name = ''SMALL''\<rparr>,
              \<lparr>docs = None, member_name = ''MEDIUM''\<rparr>,
              \<lparr>docs = Some \<lparr>example = Some ''!'', summary = None\<rparr>,
               member_name = ''LARGE''\<rparr>]\<rparr>"

definition test_assembly :: "Type \<Rightarrow> Assembly" where
  "test_assembly ty =
     \<lparr>assembly_name = ''pkg'', version = ''1.0.0'', readme = None,
      types = Some [(fqn ty, ty)]\<rparr>"

definition test_files :: "Type \<Rightarrow> string \<Rightarrow> File option" where
  "test_files ty =
     [''pkg/.jsii'' \<mapsto> Json (test_assembly ty), ''lib/.jsii'' \<mapsto> Json (test_assembly ty)]"

definition test_mixed_files :: "string \<Rightarrow> File option" where
  "test_mixed_files =
     [''pkg/.jsii'' \<mapsto>
        Json \<lparr>assembly_name = ''pkg'', version = ''1.0.0'', readme = None,
              types = Some [(fqn test_class, test_class), (fqn test_alias, test_alias)]\<rparr>]"

definition test_options :: TransliterateAssemblyOptions where
  "test_options = \<lparr>loose = None, strict = Some True, tablet = None\<rparr>"

lemmas test_simps =
  test_env_def test_state_def test_enum_def test_alias_def test_class_def test_interface_def
  test_rich_enum_def test_assembly_def test_files_def test_mixed_files_def test_options_def

lemmas run_simps =
  transliterateType_def transliterateType_Interface_def transliterateDocs_def translateDocs_def
  rosetta_translateSnippet_def rosetta_addAssembly_def rosetta_printDiagnostics_def
  rosetta_translateSnippetsInMarkdown_def rosetta_loadTabletFromFile_def
  readJson_def writeJson_def debug_def loader_def loadAssemblies_def
  transliterateAssembly_def transliterateAssembly_body_def transliterateAssembly_readme_def
  transliterateAssembly_types_def start_def
  and_then_def return_ok_def throw_def thrown_def Let_def


section \<open>Sequencing and loops\<close>

lemma and_then_return_ok [simp]: "and_then (return_ok a) f s = f a s"
  by (simp add: and_then_def return_ok_def)

lemma and_then_throw [simp]: "and_then (throw e) f s = (Inl e, s)"
  by (simp add: and_then_def throw_def)

lemma isl_and_then:
  "isl (fst (and_then m f s)) \<longleftrightarrow>
     isl (fst (m s)) \<or> (\<exists>a s'. m s = (Inr a, s') \<and> isl (fst (f a s')))"
  by (auto simp: and_then_def split: prod.splits sum.splits)

lemma forEach_append:
  "forEach f (xs @ ys) s =
     (case forEach f xs s of
        (Inl e, s') \<Rightarrow> (Inl e, s')
      | (Inr xs', s') \<Rightarrow>
          (case forEach f ys s' of
             (Inl e, s'') \<Rightarrow> (Inl e, s'')
           | (Inr ys', s'') \<Rightarrow> (Inr (xs' @ ys'), s'')))"
  by (induction xs arbitrary: s) (auto split: prod.splits sum.splits)

lemma forEach_length: "forEach f xs s = (Inr xs', s') \<Longrightarrow> length xs' = length xs"
  by (induction xs arbitrary: s xs') (auto split: prod.splits sum.splits)

lemma forEach_fails:
  assumes "x \<in> set xs" and "\<And>s. isl (fst (body x s))"
  shows "isl (fst (forEach body xs s))"
  using assms(1)
proof (induction xs arbitrary: s)
  case Nil
  then show ?case by simp
next
  case (Cons y ys)
  show ?case
  proof (cases "body y s")
    case (Pair r s1)
    show ?thesis
    proof (cases r)
      case (Inl e)
      with Pair show ?thesis by simp
    next
      case (Inr y')
      have "isl (fst (forEach body ys s1))"
      proof (cases "x = y")
        case True
        with assms(2) [of s] Pair Inr show ?thesis by simp
      next
        case False
        with Cons.prems have "x \<in> set ys" by simp
        then show ?thesis by (rule Cons.IH)
      qed
      with Pair Inr show ?thesis by (auto split: prod.splits sum.splits)
    qed
  qed
qed

lemma forEach_error:
  "fst (forEach f xs s) = Inl e \<Longrightarrow> \<exists>x s'. fst (f x s') = Inl e"
proof (induction xs arbitrary: s)
  case Nil
  then show ?case by simp
next
  case (Cons x xs)
  show ?case
  proof (cases "f x s")
    case (Pair r s1)
    show ?thesis
    proof (cases r)
      case (Inl e')
      with Pair Cons.prems have "fst (f x s) = Inl e" by simp
      then show ?thesis by blast
    next
      case (Inr x')
      with Pair Cons.prems have "fst (forEach f xs s1) = Inl e"
        by (auto split: prod.splits sum.splits)
      then show ?thesis by (rule Cons.IH)
    qed
  qed
qed

lemma forEachDo_post:
  assumes "forEachDo body xs s = (Inr u, s')"
    and "\<And>x s u s'. x \<in> set xs \<Longrightarrow> body x s = (Inr u, s') \<Longrightarrow> Q x s'"
    and "\<And>z y s. y \<in> set xs \<Longrightarrow> Q z s \<Longrightarrow> Q z (snd (body y s))"
    and "\<forall>z \<in> A. Q z s"
  shows "\<forall>z \<in> A \<union> set xs. Q z s'"
  using assms
proof (induction xs arbitrary: s A)
  case Nil
  then show ?case by simp
next
  case (Cons y ys)
  from Cons.prems(1) obtain v s1 where
    y: "body y s = (Inr v, s1)" and rest: "forEachDo body ys s1 = (Inr u, s')"
    by (auto split: prod.splits sum.splits)
  have "Q y s1" using Cons.prems(2) [of y s v s1] y by simp
  moreover have "\<forall>z \<in> A. Q z s1"
    using Cons.prems(3) [of y _ s] Cons.prems(4) y by auto
  ultimately have A': "\<forall>z \<in> insert y A. Q z s1" by simp
  have "\<forall>z \<in> insert y A \<union> set ys. Q z s'"
    by (rule Cons.IH [OF rest _ _ A']) (auto intro: Cons.prems(2) Cons.prems(3))
  then show ?case by simp
qed

lemma and_then_rel:
  assumes "\<And>a b c. R a b \<Longrightarrow> R b c \<Longrightarrow> R a c"
    and "R s (snd (m s))"
    and "\<And>a s'. R s' (snd (f a s'))"
  shows "R s (snd (and_then m f s))"
proof (cases "m s")
  case (Pair r s1)
  show ?thesis
  proof (cases r)
    case (Inl e)
    with Pair assms(2) show ?thesis by (simp add: and_then_def)
  next
    case (Inr a)
    with Pair have "snd (and_then m f s) = snd (f a s1)" by (simp add: and_then_def)
    moreover from Pair assms(2) have "R s s1" by simp
    ultimately show ?thesis using assms(1) assms(3) by metis
  qed
qed

lemma and_then_rel':
  assumes "\<And>a b c. R a b \<Longrightarrow> R b c \<Longrightarrow> R a c"
    and "R s (snd (m s))"
    and "\<And>a s'. m s = (Inr a, s') \<Longrightarrow> R s' (snd (f a s'))"
  shows "R s (snd (and_then m f s))"
proof (cases "m s")
  case (Pair r s1)
  show ?thesis
  proof (cases r)
    case (Inl e)
    with Pair assms(2) show ?thesis by (simp add: and_then_def)
  next
    case (Inr a)
    with Pair have "snd (and_then m f s) = snd (f a s1)" by (simp add: and_then_def)
    moreover from Pair assms(2) have "R s s1" by simp
    moreover from Pair Inr have "R s1 (snd (f a s1))" by (intro assms(3)) simp
    ultimately show ?thesis using assms(1) by metis
  qed
qed

lemma forEach_rel:
  assumes "\<And>a. R a a"
    and "\<And>a b c. R a b \<Longrightarrow> R b c \<Longrightarrow> R a c"
    and "\<And>x s'. R s' (snd (body x s'))"
  shows "R s (snd (forEach body xs s))"
proof (induction xs arbitrary: s)
  case Nil
  show ?case by (simp add: assms(1))
next
  case (Cons x xs)
  show ?case
  proof (cases "body x s")
    case (Pair r s1)
    then have 1: "R s s1" using assms(3) [of s x] by simp
    show ?thesis
    proof (cases r)
      case (Inl e)
      with Pair 1 show ?thesis by simp
    next
      case (Inr x')
      have "R s1 (snd (forEach body xs s1))" by (rule Cons.IH)
      with 1 have "R s (snd (forEach body xs s1))" by (rule assms(2))
      with Pair Inr show ?thesis by (auto split: prod.splits sum.splits)
    qed
  qed
qed

lemma forEachDo_rel':
  assumes "\<And>a. R a a"
    and "\<And>a b c. R a b \<Longrightarrow> R b c \<Longrightarrow> R a c"
    and "\<And>x s'. x \<in> set xs \<Longrightarrow> R s' (snd (body x s'))"
  shows "R s (snd (forEachDo body xs s))"
  using assms(3)
proof (induction xs arbitrary: s)
  case Nil
  show ?case by (simp add: assms(1))
next
  case (Cons x xs)
  show ?case
  proof (cases "body x s")
    case (Pair r s1)
    then have 1: "R s s1" using Cons.prems [of x s] by simp
    show ?thesis
    proof (cases r)
      case (Inl e)
      with Pair 1 show ?thesis by simp
    next
      case (Inr x')
      have "R s1 (snd (forEachDo body xs s1))" by (rule Cons.IH) (simp add: Cons.prems)
      with 1 have "R s (snd (forEachDo body xs s1))" by (rule assms(2))
      with Pair Inr show ?thesis by simp
    qed
  qed
qed


section \<open>The walk is the callback run over the Docs nodes in order\<close>

lemma forEach_put_docs:
  "forEach (\<lambda>x. and_then (cb (docs x)) (\<lambda>d. return_ok (x\<lparr>docs := d\<rparr>))) xs s =
     (case forEach cb (map docs xs) s of
        (Inl e, s') \<Rightarrow> (Inl e, s')
      | (Inr ds, s') \<Rightarrow> (Inr (put_docs xs ds), s'))"
  by (induction xs arbitrary: s)
     (auto simp: put_docs_def and_then_def return_ok_def split: prod.splits sum.splits)

lemma Method_body_visits:
  "and_then (cb (docs m))
     (\<lambda>d. and_then
        (forEach (\<lambda>parameter. and_then (cb (docs parameter)) (\<lambda>d'. return_ok (parameter\<lparr>docs := d'\<rparr>)))
           (case parameters m of None \<Rightarrow> [] | Some ps \<Rightarrow> ps))
        (\<lambda>ps'. return_ok (m\<lparr>docs := d, parameters := map_option (\<lambda>_. ps') (parameters m)\<rparr>))) s =
   (case forEach cb (Method_docs m) s of
      (Inl e, s') \<Rightarrow> (Inl e, s')
    | (Inr ds, s') \<Rightarrow> (Inr (put_Method_docs m ds), s'))"
  by (cases "parameters m")
     (auto simp: Method_docs_def put_Method_docs_def forEach_put_docs and_then_def return_ok_def
           split: prod.splits sum.splits)

lemma forEach_Methods_docs:
  "forEach
     (\<lambda>method s.
        case forEach cb (Method_docs method) s of
          (Inl e, s') \<Rightarrow> (Inl e, s')
        | (Inr ds, s') \<Rightarrow> (Inr (put_Method_docs method ds), s'))
     ms s =
   (case forEach cb (concat (map Method_docs ms)) s of
      (Inl e, s') \<Rightarrow> (Inl e, s')
    | (Inr ds, s') \<Rightarrow> (Inr (put_Methods_docs ms ds), s'))"
proof (induction ms arbitrary: s)
  case Nil
  show ?case by simp
next
  case (Cons m ms)
  show ?case
    by (auto simp: forEach_append Cons.IH dest: forEach_length
          split: prod.splits sum.splits)
qed

lemma Methods_loop_visits:
  "forEach
     (\<lambda>method.
        and_then (cb (docs method))
          (\<lambda>d. and_then
             (forEach (\<lambda>parameter. and_then (cb (docs parameter)) (\<lambda>d'. return_ok (parameter\<lparr>docs := d'\<rparr>)))
                (case parameters method of None \<Rightarrow> [] | Some ps \<Rightarrow> ps))
             (\<lambda>ps'. return_ok (method\<lparr>docs := d, parameters := map_option (\<lambda>_. ps') (parameters method)\<rparr>))))
     ms s =
   (case forEach cb (concat (map Method_docs ms)) s of
      (Inl e, s') \<Rightarrow> (Inl e, s')
    | (Inr ds, s') \<Rightarrow> (Inr (put_Methods_docs ms ds), s'))"
proof -
  have body:
    "(\<lambda>method.
        and_then (cb (docs method))
          (\<lambda>d. and_then
             (forEach (\<lambda>parameter. and_then (cb (docs parameter)) (\<lambda>d'. return_ok (parameter\<lparr>docs := d'\<rparr>)))
                (case parameters method of None \<Rightarrow> [] | Some ps \<Rightarrow> ps))
             (\<lambda>ps'. return_ok (method\<lparr>docs := d, parameters := map_option (\<lambda>_. ps') (parameters method)\<rparr>)))) =
     (\<lambda>method s.
        case forEach cb (Method_docs method) s of
          (Inl e, s') \<Rightarrow> (Inl e, s')
        | (Inr ds, s') \<Rightarrow> (Inr (put_Method_docs method ds), s'))"
    by (intro ext) (rule Method_body_visits)
  show ?thesis
    unfolding body by (rule forEach_Methods_docs)
qed

lemma Interface_visits:
  "transliterateType_Interface cb ty s =
   (case forEach cb (Interface_docs ty) s of
      (Inl e, s') \<Rightarrow> (Inl e, s')
    | (Inr ds, s') \<Rightarrow> (Inr (put_Interface_docs ty ds), s'))"
proof -
  define ms where "ms = (case methods ty of None \<Rightarrow> [] | Some ms \<Rightarrow> ms)"
  define ps where "ps = (case properties ty of None \<Rightarrow> [] | Some ps \<Rightarrow> ps)"
  have ms: "map_option (\<lambda>_. f ms) (methods ty) = map_option f (methods ty)" for f :: "Method list \<Rightarrow> Method list"
    by (cases "methods ty") (simp_all add: ms_def)
  have ps: "map_option (\<lambda>_. f ps) (properties ty) = map_option f (properties ty)" for f :: "Property list \<Rightarrow> Property list"
    by (cases "properties ty") (simp_all add: ps_def)
  show ?thesis
  proof (cases "forEach cb (concat (map Method_docs ms)) s")
    case (Pair r1 s1)
    show ?thesis
    proof (cases r1)
      case (Inl e)
      with Pair show ?thesis
        by (simp add: transliterateType_Interface_def Interface_docs_def Methods_loop_visits
              forEach_append and_then_def ms_def [symmetric] ps_def [symmetric])
    next
      case (Inr ds1)
      with Pair have len: "length ds1 = length (concat (map Method_docs ms))"
        by (auto dest: forEach_length)
      show ?thesis
      proof (cases "forEach cb (map docs ps) s1")
        case (Pair r2 s2)
        note P2 = this
        show ?thesis
        proof (cases r2)
          case (Inl e)
          with P2 Inr \<open>forEach cb (concat (map Method_docs ms)) s = (r1, s1)\<close> show ?thesis
            by (simp add: transliterateType_Interface_def Interface_docs_def Methods_loop_visits
                  forEach_put_docs forEach_append and_then_def ms_def [symmetric] ps_def [symmetric])
        next
          case (Inr ds2)
          have ms': "map_option (\<lambda>_. put_Methods_docs ms ds1) (methods ty)
                     = map_option (\<lambda>ms. put_Methods_docs ms ds1) (methods ty)"
            by (cases "methods ty") (simp_all add: ms_def)
          have ps': "map_option (\<lambda>_. put_docs ps ds2) (properties ty)
                     = map_option (\<lambda>ps. put_docs ps ds2) (properties ty)"
            by (cases "properties ty") (simp_all add: ps_def)
          from Inr P2 \<open>r1 = Inr ds1\<close> \<open>forEach cb (concat (map Method_docs ms)) s = (r1, s1)\<close> len
          show ?thesis
            by (simp add: transliterateType_Interface_def Interface_docs_def Methods_loop_visits
                  forEach_put_docs forEach_append and_then_def return_ok_def put_Interface_docs_def
                  ms_def [symmetric] ps_def [symmetric] ms' ps')
        qed
      qed
    qed
  qed
qed

lemma Interface_docs_update [simp]:
  "Interface_docs (ty\<lparr>docs := d\<rparr>) = Interface_docs ty"
  "Interface_docs (ty\<lparr>initializer := i\<rparr>) = Interface_docs ty"
  by (simp_all add: Interface_docs_def)

lemma walk_Interface:
  assumes "kind ty = Interface"
  shows "transliterateType env l wd lo ty s =
     (case forEach (translateDocs env l wd lo) (docs ty # Interface_docs ty) s of
        (Inl e, s') \<Rightarrow> (Inl e, s')
      | (Inr ds, s') \<Rightarrow> (Inr (put_Interface_docs (ty\<lparr>docs := hd ds\<rparr>) (tl ds)), s'))"
  using assms
  by (simp add: transliterateType_def translateDocs_def and_then_def Interface_visits Let_def
        split: prod.splits sum.splits)

lemma walk_Class:
  assumes "kind ty = Class"
  shows "transliterateType env l wd lo ty s =
     (case forEach (translateDocs env l wd lo) (docs ty # Initializer_docs ty # Interface_docs ty) s of
        (Inl e, s') \<Rightarrow> (Inl e, s')
      | (Inr ds, s') \<Rightarrow> (Inr (put_Class_docs ty ds), s'))"
  using assms
  by (simp add: transliterateType_def translateDocs_def and_then_def Interface_visits Let_def
        Initializer_docs_def put_Class_docs_def
        split: prod.splits sum.splits)

lemma walk_Enum:
  assumes "kind ty = Enum" and "members ty = Some ms"
  shows "transliterateType env l wd lo ty s =
     (case forEach (translateDocs env l wd lo) (docs ty # map docs ms) s of
        (Inl e, s') \<Rightarrow> (Inl e, s')
      | (Inr ds, s') \<Rightarrow>
          (Inr (ty\<lparr>docs := hd ds, members := Some (put_docs ms (tl ds))\<rparr>), s'))"
  using assms
  by (simp add: transliterateType_def translateDocs_def and_then_def forEach_put_docs Let_def
        return_ok_def
        split: prod.splits sum.splits)

lemma walk_Enum_absent:
  assumes "kind ty = Enum" and "members ty = None"
  shows "transliterateType env l wd lo ty s =
     (case translateDocs env l wd lo (docs ty) s of
        (Inl e, s') \<Rightarrow> (Inl e, s')
      | (Inr d, s') \<Rightarrow> (Inl NotIterable, s'))"
  using assms
  by (simp add: transliterateType_def translateDocs_def and_then_def Let_def throw_def
        split: prod.splits sum.splits)

lemma walk_OtherKind:
  assumes "kind ty = OtherKind k"
  shows "transliterateType env l wd lo ty s =
     (case translateDocs env l wd lo (docs ty) s of
        (Inl e, s') \<Rightarrow> (Inl e, s')
      | (Inr d, s') \<Rightarrow> (Inl (UnsupportedTypeKind k), s'))"
  using assms
  by (simp add: transliterateType_def translateDocs_def and_then_def Let_def throw_def
        split: prod.splits sum.splits)

lemma transliterateType_OtherKind_fails:
  "kind ty = OtherKind k \<Longrightarrow> isl (fst (transliterateType env l wd lo ty s))"
  by (simp add: walk_OtherKind split: prod.splits sum.splits)

lemma docs_put [simp]:
  "docs (put_Interface_docs ty ds) = docs ty"
  "docs (put_Class_docs ty ds) = hd ds"
  by (simp_all add: put_Interface_docs_def put_Class_docs_def Let_def)

lemma translateDocs_error:
  "fst (translateDocs env l wd lo n s) = Inl e \<Longrightarrow> \<exists>m. e = Thrown m"
  by (auto simp: translateDocs_def transliterateDocs_def return_ok_def throw_def and_then_def
        rosetta_translateSnippet_def thrown_def
        split: option.splits if_splits sum.splits prod.splits)


section \<open>Absent collections\<close>

lemma Method_docs_fill [simp]:
  "Method_docs (m\<lparr>parameters := Some (case parameters m of None \<Rightarrow> [] | Some ps \<Rightarrow> ps)\<rparr>)
     = Method_docs m"
  by (simp add: Method_docs_def)

lemma Interface_docs_absent_as_empty [simp]:
  "Interface_docs (absent_as_empty ty) = Interface_docs ty"
  by (simp add: Interface_docs_def absent_as_empty_def comp_def)

lemma absent_as_empty_fields [simp]:
  "docs (absent_as_empty ty) = docs ty"
  "kind (absent_as_empty ty) = kind ty"
  "Initializer_docs (absent_as_empty ty) = Initializer_docs ty"
  by (simp_all add: absent_as_empty_def Initializer_docs_def)

lemma put_Method_docs_fill:
  "put_Method_docs (m\<lparr>parameters := Some (case parameters m of None \<Rightarrow> [] | Some ps \<Rightarrow> ps)\<rparr>) ds
   = (put_Method_docs m ds)
       \<lparr>parameters := Some (case parameters (put_Method_docs m ds) of None \<Rightarrow> [] | Some ps \<Rightarrow> ps)\<rparr>"
  by (cases "parameters m") (simp_all add: put_Method_docs_def put_docs_def)

lemma put_Methods_docs_fill:
  "put_Methods_docs
     (map (\<lambda>m. m\<lparr>parameters := Some (case parameters m of None \<Rightarrow> [] | Some ps \<Rightarrow> ps)\<rparr>) ms) ds
   = map (\<lambda>m. m\<lparr>parameters := Some (case parameters m of None \<Rightarrow> [] | Some ps \<Rightarrow> ps)\<rparr>)
       (put_Methods_docs ms ds)"
  by (induction ms arbitrary: ds) (simp_all add: put_Method_docs_fill)

lemma put_Interface_docs_absent_as_empty:
  "put_Interface_docs (absent_as_empty ty) ds = absent_as_empty (put_Interface_docs ty ds)"
  by (cases "methods ty"; cases "properties ty")
     (simp_all add: put_Interface_docs_def absent_as_empty_def Let_def comp_def
        put_Methods_docs_fill put_docs_def)

lemma absent_as_empty_update:
  "absent_as_empty (ty\<lparr>docs := d\<rparr>) = (absent_as_empty ty)\<lparr>docs := d\<rparr>"
  "absent_as_empty (ty\<lparr>initializer := i\<rparr>) = (absent_as_empty ty)\<lparr>initializer := i\<rparr>"
  "initializer (absent_as_empty ty) = initializer ty"
  by (simp_all add: absent_as_empty_def)

lemma put_Class_docs_absent_as_empty:
  "put_Class_docs (absent_as_empty ty) ds = absent_as_empty (put_Class_docs ty ds)"
  by (simp add: put_Class_docs_def put_Interface_docs_absent_as_empty
        absent_as_empty_update(3) absent_as_empty_update(1,2) [symmetric])


section \<open>Events and files, step by step\<close>

lemma registered_append: "registered (xs @ ys) = registered xs @ registered ys"
  by (induction xs rule: registered.induct) simp_all

lemma registered_none: "list_all (\<lambda>e. \<forall>d. e \<noteq> AddAssembly d) es \<Longrightarrow> registered es = []"
  by (induction es rule: registered.induct) simp_all

lemma loading_event_simps [simp]:
  "loading_event (ReadJson p)" "loading_event (AddAssembly d)" "loading_event (LoadTablet p)"
  by (simp_all add: loading_event_def)

lemma run_event_simps [simp]:
  "run_event (ReadJson p)" "run_event (TranslateMarkdown l d)" "run_event (TranslateSnippet sn l)"
  "run_event (WriteJson p)" "run_event (DebugDone n v l)"
  "\<not> run_event (AddAssembly d)" "\<not> run_event PrintDiagnostics" "\<not> run_event (LoadTablet p)"
  by (simp_all add: run_event_def)

lemma quiet_event_simps [simp]:
  "quiet_event (ReadJson p)" "quiet_event (TranslateMarkdown l d)"
  "quiet_event (TranslateSnippet sn l)" "\<not> quiet_event (WriteJson p)"
  by (simp_all add: quiet_event_def)

lemma step_refl: "step P W s s"
  by (simp add: step_def)

lemma step_trans: "step P W a b \<Longrightarrow> step P W b c \<Longrightarrow> step P W a c"
  unfolding step_def by (elim conjE exE) (auto simp: subset_iff)

lemma step_mono: "step P W a b \<Longrightarrow> (\<And>e. P e \<Longrightarrow> Q e) \<Longrightarrow> W \<subseteq> V \<Longrightarrow> step Q V a b"
  unfolding step_def by (auto simp: list_all_iff)

lemma step_return_ok: "step P W s (snd (return_ok a s))"
  by (simp add: return_ok_def step_refl)

lemma step_throw: "step P W s (snd (throw e s))"
  by (simp add: throw_def step_refl)

lemma step_and_then:
  "step P W s (snd (m s)) \<Longrightarrow> (\<And>a s'. step P W s' (snd (f a s')))
     \<Longrightarrow> step P W s (snd (and_then m f s))"
  by (rule and_then_rel [where R = "step P W"]) (auto intro: step_trans)

lemma step_and_then':
  "step P W s (snd (m s)) \<Longrightarrow> (\<And>a s'. m s = (Inr a, s') \<Longrightarrow> step P W s' (snd (f a s')))
     \<Longrightarrow> step P W s (snd (and_then m f s))"
  by (rule and_then_rel' [where R = "step P W"]) (auto intro: step_trans)

lemma step_forEach:
  "(\<And>x s'. step P W s' (snd (body x s'))) \<Longrightarrow> step P W s (snd (forEach body xs s))"
  by (rule forEach_rel [where R = "step P W"]) (auto intro: step_trans step_refl)

lemma step_forEachDo':
  "(\<And>x s'. x \<in> set xs \<Longrightarrow> step P W s' (snd (body x s')))
     \<Longrightarrow> step P W s (snd (forEachDo body xs s))"
  by (rule forEachDo_rel' [where R = "step P W"]) (auto intro: step_trans step_refl)

lemma step_translateSnippet:
  "P (TranslateSnippet sn l) \<Longrightarrow> step P W s (snd (rosetta_translateSnippet env sn l s))"
  by (simp add: rosetta_translateSnippet_def step_def split: prod.splits)

lemma step_transliterateDocs:
  "(\<And>sn. P (TranslateSnippet sn l)) \<Longrightarrow> step P W s (snd (transliterateDocs env l wd lo n s))"
  unfolding transliterateDocs_def
  by (auto intro!: step_return_ok step_throw step_and_then step_translateSnippet
        split: option.splits sum.splits)

lemma step_translateDocs:
  "(\<And>sn. P (TranslateSnippet sn l)) \<Longrightarrow> step P W s (snd (translateDocs env l wd lo n s))"
  by (simp add: translateDocs_def step_transliterateDocs)

lemma step_transliterateType_Interface:
  "(\<And>n s'. step P W s' (snd (cb n s'))) \<Longrightarrow> step P W s (snd (transliterateType_Interface cb ty s))"
  unfolding transliterateType_Interface_def
  by (intro step_and_then step_forEach step_return_ok) auto

lemma step_transliterateType:
  assumes "\<And>sn. P (TranslateSnippet sn l)"
  shows "step P W s (snd (transliterateType env l wd lo ty s))"
  unfolding transliterateType_def Let_def
  by (intro step_and_then step_transliterateDocs assms)
     (auto intro!: step_and_then step_transliterateDocs step_transliterateType_Interface
        step_forEach step_return_ok step_throw assms split: TypeKind.splits option.splits)

lemma forEach_Cons_Inr:
  "translateDocs env l wd lo x s = (Inr d, s1) \<Longrightarrow>
     forEach (translateDocs env l wd lo) (x # xs) s =
       (case forEach (translateDocs env l wd lo) xs s1 of
          (Inl e, s') \<Rightarrow> (Inl e, s')
        | (Inr ds, s') \<Rightarrow> (Inr (d # ds), s'))"
  by simp

lemma events_forEach_translateDocs:
  "\<exists>evs. events (snd (forEach (translateDocs env l wd lo) xs s)) = events s @ evs"
proof -
  have "step (\<lambda>_. True) {} s (snd (forEach (translateDocs env l wd lo) xs s))"
    by (intro step_forEach step_translateDocs) simp
  then show ?thesis by (auto simp: step_def)
qed

lemma walk_after_first:
  assumes cb: "translateDocs env l wd lo x s = (Inr d, s1)"
    and w: "run = (case forEach (translateDocs env l wd lo) (x # xs) s of
                     (Inl e, s') \<Rightarrow> (Inl e, s')
                   | (Inr ds, s') \<Rightarrow> (Inr (put ds), s'))"
  shows "(\<exists>evs. events (snd run) = events s1 @ evs)
         \<and> (\<forall>ty'. fst run = Inr ty' \<longrightarrow> (\<exists>ds. ty' = put (d # ds)))"
proof (cases "forEach (translateDocs env l wd lo) xs s1")
  case (Pair r2 s2)
  with events_forEach_translateDocs [of env l wd lo xs s1]
  have "\<exists>evs. events s2 = events s1 @ evs" by simp
  with Pair show ?thesis
    unfolding w forEach_Cons_Inr [OF cb] by (cases r2) auto
qed

lemma step_readJson: "P (ReadJson p) \<Longrightarrow> step P W s (snd (readJson p s))"
  by (simp add: readJson_def step_def)

lemma step_loader:
  "P (ReadJson (resolve env d (SPEC_FILE_NAME env))) \<Longrightarrow> step P W s (snd (loader env d s))"
  by (simp add: loader_def step_readJson)

lemma loader_result:
  "fst (loader env d s) =
     (case disk s (resolve env d (SPEC_FILE_NAME env)) of
        None \<Rightarrow> Inl (NoSuchFile (resolve env d (SPEC_FILE_NAME env)))
      | Some Garbage \<Rightarrow> Inl (NotJson (resolve env d (SPEC_FILE_NAME env)))
      | Some (Json a) \<Rightarrow> Inr a)"
  by (simp add: loader_def readJson_def)

lemma step_writeJson:
  "P (WriteJson p) \<Longrightarrow> p \<in> W \<Longrightarrow> step P W s (snd (writeJson env p a s))"
  by (auto simp: writeJson_def step_def)

lemma step_debug: "P (DebugDone n v l) \<Longrightarrow> step P W s (snd (debug n v l s))"
  by (simp add: debug_def step_def)

lemma step_markdown:
  "P (TranslateMarkdown l d) \<Longrightarrow>
     step P W s (snd (rosetta_translateSnippetsInMarkdown env md l st f d s))"
  by (simp add: rosetta_translateSnippetsInMarkdown_def step_def split: prod.splits)

lemma step_readme:
  "P (TranslateMarkdown l location) \<Longrightarrow>
     step P W s (snd (transliterateAssembly_readme env location l a s))"
  unfolding transliterateAssembly_readme_def
  by (auto intro!: step_and_then step_return_ok step_markdown split: option.splits)

lemma readme_types:
  "transliterateAssembly_readme env location l a s = (Inr a1, s1) \<Longrightarrow> types a1 = types a"
  unfolding transliterateAssembly_readme_def
  by (auto simp: and_then_def return_ok_def split: option.splits if_splits prod.splits sum.splits)

lemma step_types:
  "(\<And>sn. P (TranslateSnippet sn l)) \<Longrightarrow>
     step P W s (snd (transliterateAssembly_types env options location l a s))"
  unfolding transliterateAssembly_types_def
  by (auto intro!: step_and_then step_return_ok step_forEach step_transliterateType
        split: option.splits)

lemma types_fail:
  assumes "types a = Some ts" and "(n, ty) \<in> set ts" and "kind ty = OtherKind k"
  shows "isl (fst (transliterateAssembly_types env options location l a s))"
proof -
  have "isl (fst (forEach
                    (\<lambda>(n, ty).
                       and_then (transliterateType env l location (loose options) ty)
                         (\<lambda>ty'. return_ok (n, ty')))
                    ts s))"
    by (rule forEach_fails [OF assms(2)])
       (use assms(3) in \<open>simp add: isl_and_then transliterateType_OtherKind_fails\<close>)
  with assms(1) show ?thesis
    by (simp add: transliterateAssembly_types_def isl_and_then)
qed

lemma step_body:
  assumes "\<And>s. step P W s (snd (loadAssembly s))"
    and "P (TranslateMarkdown l location)" and "\<And>sn. P (TranslateSnippet sn l)"
    and "P (WriteJson (output_path env location l))" and "\<And>n v. P (DebugDone n v l)"
    and "output_path env location l \<in> W"
  shows "step P W s (snd (transliterateAssembly_body env options location loadAssembly l s))"
  unfolding transliterateAssembly_body_def
  by (intro step_and_then assms(1) step_readme step_types step_writeJson step_debug assms
        assms(6) [unfolded output_path_def] assms(4) [unfolded output_path_def])

lemma body_written:
  assumes "transliterateAssembly_body env options location loadAssembly l s = (Inr u, s')"
  shows "WriteJson (output_path env location l) \<in> set (events s')
         \<and> output_path env location l \<in> dom (disk s')"
  using assms
  unfolding transliterateAssembly_body_def output_path_def
  by (auto simp: and_then_def writeJson_def debug_def split: prod.splits sum.splits if_splits)

lemma body_bad_type:
  assumes "loadAssembly s = (Inr a, s1)"
    and "types a = Some ts" and "(n, ty) \<in> set ts" and "kind ty = OtherKind k"
    and "\<And>s. step quiet_event {} s (snd (loadAssembly s))"
  shows "isl (fst (transliterateAssembly_body env options location loadAssembly l s))
         \<and> step quiet_event {} s
              (snd (transliterateAssembly_body env options location loadAssembly l s))"
proof (cases "transliterateAssembly_readme env location l a s1")
  case (Pair r s2)
  have q1: "step quiet_event {} s s1"
    using assms(5) [of s] assms(1) by simp
  have q2: "step quiet_event {} s1 s2"
    using step_readme [of quiet_event l location "{}" s1 env a] Pair
    by (simp add: quiet_event_def)
  show ?thesis
  proof (cases r)
    case (Inl e)
    with Pair assms(1) q1 q2 show ?thesis
      by (auto simp: transliterateAssembly_body_def and_then_def intro: step_trans)
  next
    case (Inr a1)
    with Pair have "types a1 = Some ts"
      using readme_types [of env location l a s1 a1 s2] assms(2) by simp
    then have f: "isl (fst (transliterateAssembly_types env options location l a1 s2))"
      using assms(3,4) by (rule types_fail)
    have q3: "step quiet_event {} s2 (snd (transliterateAssembly_types env options location l a1 s2))"
      by (rule step_types) (simp add: quiet_event_def)
    from f Pair Inr assms(1) q1 q2 q3 show ?thesis
      by (auto simp: transliterateAssembly_body_def and_then_def
            split: prod.splits sum.splits intro: step_trans)
  qed
qed

lemma step_written: "step P W s s' \<Longrightarrow> written p s \<Longrightarrow> written p s'"
  by (auto simp: step_def written_def)

lemma all_written_step:
  "step P W s s' \<Longrightarrow> (\<And>p. \<not> P (WriteJson p)) \<Longrightarrow> all_written s \<Longrightarrow> all_written s'"
  unfolding step_def all_written_def list_all_iff by (elim conjE exE) (auto simp: subset_iff)

lemma all_written_body:
  fixes env :: "('r, 'sn) Collaborators"
  shows "all_written s \<longrightarrow>
     all_written (snd (transliterateAssembly_body env options d (loader env d) l s))"
  unfolding transliterateAssembly_body_def
proof (intro and_then_rel' [where R = "\<lambda>a b. all_written a \<longrightarrow> all_written b"])
  show "all_written s \<longrightarrow> all_written (snd (loader env d s))"
    using all_written_step [OF step_loader [of quiet_event env d "{}" s]] by simp
next
  fix a and s' :: "('r, 'sn) State"
  show "all_written s' \<longrightarrow> all_written (snd (transliterateAssembly_readme env d l a s'))"
    using all_written_step [OF step_readme [of quiet_event l d "{}" s' env a]] by simp
next
  fix a and s' :: "('r, 'sn) State"
  show "all_written s' \<longrightarrow>
        all_written (snd (transliterateAssembly_types env options d l a s'))"
    using all_written_step [OF step_types [of quiet_event l "{}" s' env options d a]] by simp
next
  fix a and s' :: "('r, 'sn) State"
  show "all_written s' \<longrightarrow>
        all_written (snd (writeJson env (resolve env d (SPEC_FILE_NAME env @ ''.'' @ l)) a s'))"
    by (auto simp: all_written_def writeJson_def)
next
  fix n v and s' :: "('r, 'sn) State"
  show "all_written s' \<longrightarrow> all_written (snd (debug n v l s'))"
    by (auto simp: all_written_def debug_def)
qed auto


section \<open>No step raises the strict-mode failure\<close>

lemma calm_return_ok: "calm (return_ok a)"
  by (simp add: calm_def return_ok_def)

lemma calm_throw: "e \<noteq> StrictModeFailure \<Longrightarrow> calm (throw e)"
  by (simp add: calm_def throw_def)

lemma calmD: "calm m \<Longrightarrow> m s = (Inl StrictModeFailure, s') \<Longrightarrow> False"
  by (auto simp: calm_def dest: spec [of _ s])

lemma calmI: "(\<And>s s'. m s = (Inl StrictModeFailure, s') \<Longrightarrow> False) \<Longrightarrow> calm m"
  unfolding calm_def by (metis prod.collapse)

lemma calm_and_then: "calm m \<Longrightarrow> (\<And>a. calm (f a)) \<Longrightarrow> calm (and_then m f)"
  by (rule calmI) (auto simp: and_then_def split: prod.splits sum.splits dest: calmD)

lemma calm_forEach:
  assumes "\<And>x. x \<in> set xs \<Longrightarrow> calm (body x)"
  shows "calm (forEach body xs)"
  using assms
proof (induction xs)
  case Nil
  show ?case by (simp add: calm_def)
next
  case (Cons x xs)
  have 1: "calm (body x)" by (simp add: Cons.prems)
  have 2: "calm (forEach body xs)" by (rule Cons.IH) (simp add: Cons.prems)
  show ?case
    by (rule calmI) (auto split: prod.splits sum.splits dest: calmD [OF 1] calmD [OF 2])
qed

lemma calm_forEachDo:
  assumes "\<And>x. x \<in> set xs \<Longrightarrow> calm (body x)"
  shows "calm (forEachDo body xs)"
  using assms
proof (induction xs)
  case Nil
  show ?case by (simp add: calm_def)
next
  case (Cons x xs)
  have 1: "calm (body x)" by (simp add: Cons.prems)
  have 2: "calm (forEachDo body xs)" by (rule Cons.IH) (simp add: Cons.prems)
  show ?case
    by (rule calmI) (auto split: prod.splits sum.splits dest: calmD [OF 1] calmD [OF 2])
qed

lemma thrown_calm [simp]: "thrown r \<noteq> Inl StrictModeFailure"
  by (simp add: thrown_def split: sum.splits)

lemma calm_translateSnippet: "calm (rosetta_translateSnippet env sn l)"
  by (simp add: calm_def rosetta_translateSnippet_def split: prod.splits)

lemma calm_markdown: "calm (rosetta_translateSnippetsInMarkdown env md l st f d)"
  by (simp add: calm_def rosetta_translateSnippetsInMarkdown_def split: prod.splits)

lemma calm_addAssembly: "calm (rosetta_addAssembly env a d)"
  by (simp add: calm_def rosetta_addAssembly_def split: prod.splits)

lemma calm_loadTablet: "calm (rosetta_loadTabletFromFile env p)"
  by (simp add: calm_def rosetta_loadTabletFromFile_def split: prod.splits)

lemma calm_readJson: "calm (readJson p)"
  by (simp add: calm_def readJson_def split: option.splits File.splits)

lemma calm_loader: "calm (loader env d)"
  by (simp add: loader_def calm_readJson)

lemma calm_writeJson: "calm (writeJson env p a)"
  by (simp add: calm_def writeJson_def)

lemma calm_debug: "calm (debug n v l)"
  by (simp add: calm_def debug_def)

lemma calm_transliterateDocs: "calm (transliterateDocs env l wd lo n)"
  unfolding transliterateDocs_def
  by (auto intro!: calm_return_ok calm_throw calm_and_then calm_translateSnippet
        split: option.splits sum.splits)

lemma calm_transliterateType_Interface:
  "(\<And>n. calm (cb n)) \<Longrightarrow> calm (transliterateType_Interface cb ty)"
  unfolding transliterateType_Interface_def
  by (intro calm_and_then calm_forEach calm_return_ok) auto

lemma calm_transliterateType: "calm (transliterateType env l wd lo ty)"
  unfolding transliterateType_def Let_def
  by (intro calm_and_then calm_transliterateDocs)
     (auto intro!: calm_and_then calm_transliterateDocs calm_transliterateType_Interface
        calm_forEach calm_return_ok calm_throw split: TypeKind.splits option.splits)

lemma calm_readme: "calm (transliterateAssembly_readme env location l a)"
  unfolding transliterateAssembly_readme_def
  by (auto intro!: calm_and_then calm_return_ok calm_markdown split: option.splits)

lemma calm_types: "calm (transliterateAssembly_types env options location l a)"
  unfolding transliterateAssembly_types_def
  by (auto intro!: calm_and_then calm_return_ok calm_forEach calm_transliterateType
        split: option.splits)

lemma calm_body:
  "calm loadAssembly \<Longrightarrow> calm (transliterateAssembly_body env options location loadAssembly l)"
  unfolding transliterateAssembly_body_def
  by (intro calm_and_then calm_readme calm_types calm_writeJson calm_debug)

lemma calm_loadAssemblies_loop: "calm (loadAssemblies_loop env dirs m)"
  by (induction dirs arbitrary: m)
     (auto intro!: calm_return_ok calm_and_then calm_loader calm_addAssembly)


section \<open>The phases of a run\<close>

lemma map_set_keys: "fst ` set (map_set m k v) = insert k (fst ` set m)"
  by (induction m k v rule: map_set.induct) (simp_all add: insert_commute)

lemma map_set_entries: "(k', v') \<in> set (map_set m k v) \<Longrightarrow> (k', v') \<in> set m \<or> (k' = k \<and> v' = v)"
  by (induction m) (auto split: if_splits)

lemma loadAssemblies_loop_entries:
  assumes "loadAssemblies_loop env dirs m s = (Inr m', s')"
    and "\<forall>(d, f) \<in> set m. f = loader env d"
  shows "(\<forall>(d, f) \<in> set m'. f = loader env d) \<and> fst ` set m' = fst ` set m \<union> set dirs"
  using assms
proof (induction dirs arbitrary: m s)
  case Nil
  then show ?case by (simp add: return_ok_def)
next
  case (Cons d dirs)
  from Cons.prems(1) obtain s1 where
    rest: "loadAssemblies_loop env dirs (map_set m d (loader env d)) s1 = (Inr m', s')"
    by (auto simp: and_then_def split: prod.splits sum.splits)
  have "\<forall>(d', f) \<in> set (map_set m d (loader env d)). f = loader env d'"
    using Cons.prems(2) by (auto dest: map_set_entries)
  from Cons.IH [OF rest this] show ?case
    by (auto simp: map_set_keys)
qed

lemma loading_events_simps [simp]:
  "loading_events env [] = []"
  "loading_events env (d # dirs) =
     ReadJson (resolve env d (SPEC_FILE_NAME env)) # AddAssembly d # loading_events env dirs"
  by (simp_all add: loading_events_def)

lemma registered_loading_events [simp]: "registered (loading_events env dirs) = dirs"
  by (induction dirs) simp_all

lemma loadAssemblies_loop_events:
  "\<exists>evs n. events (snd (loadAssemblies_loop env dirs m s)) = events s @ evs
      \<and> list_all loading_event evs
      \<and> registered evs = take n dirs
      \<and> (\<not> isl (fst (loadAssemblies_loop env dirs m s)) \<longrightarrow> evs = loading_events env dirs)
      \<and> disk (snd (loadAssemblies_loop env dirs m s)) = disk s"
proof (induction dirs arbitrary: m s)
  case Nil
  show ?case by (simp add: return_ok_def)
next
  case (Cons d dirs)
  let ?p = "resolve env d (SPEC_FILE_NAME env)"
  obtain r1 s1 where l: "loader env d s = (r1, s1)" by (cases "loader env d s")
  then have s1: "events s1 = events s @ [ReadJson ?p]" "disk s1 = disk s"
    by (auto simp: loader_def readJson_def)
  show ?case
  proof (cases r1)
    case (Inl e)
    with l s1 show ?thesis
      by (intro exI [of _ "[ReadJson ?p]"] exI [of _ 0])
         (simp add: and_then_def)
  next
    case (Inr a)
    obtain r2 s2 where a: "rosetta_addAssembly env a d s1 = (r2, s2)"
      by (cases "rosetta_addAssembly env a d s1")
    then have s2: "events s2 = events s1 @ [AddAssembly d]" "disk s2 = disk s1"
      by (auto simp: rosetta_addAssembly_def split: prod.splits)
    show ?thesis
    proof (cases r2)
      case (Inl e)
      with l Inr a s1 s2 show ?thesis
        by (intro exI [of _ "[ReadJson ?p, AddAssembly d]"] exI [of _ 1])
           (simp add: and_then_def)
    next
      case (Inr u)
      let ?rest = "loadAssemblies_loop env dirs (map_set m d (loader env d)) s2"
      from Cons.IH [of "map_set m d (loader env d)" s2] obtain evs n where
        ih: "events (snd ?rest) = events s2 @ evs" "list_all loading_event evs"
          "registered evs = take n dirs"
          "\<not> isl (fst ?rest) \<longrightarrow> evs = loading_events env dirs"
          "disk (snd ?rest) = disk s2"
        by blast
      have eq: "loadAssemblies_loop env (d # dirs) m s = ?rest"
        using l \<open>r1 = Inr a\<close> a Inr by (simp add: and_then_def)
      show ?thesis
        unfolding eq using ih s1 s2
        by (intro exI [of _ "[ReadJson ?p, AddAssembly d] @ evs"] exI [of _ "Suc n"])
           simp
    qed
  qed
qed

lemma step_languages:
  assumes "d \<in> set dirs"
  shows "step run_event (outputs env dirs langs) s
           (snd (forEachDo (transliterateAssembly_body env options d (loader env d)) langs s))"
proof (rule step_forEachDo')
  fix l s'
  assume "l \<in> set langs"
  with assms have "output_path env d l \<in> outputs env dirs langs"
    by (auto simp: outputs_def)
  then show "step run_event (outputs env dirs langs) s'
           (snd (transliterateAssembly_body env options d (loader env d) l s'))"
    by (intro step_body step_loader) simp_all
qed

lemma step_loops:
  assumes "\<forall>(d, f) \<in> set m. f = loader env d" and "fst ` set m \<subseteq> set dirs"
  shows "step run_event (outputs env dirs langs) s
           (snd (forEachDo
                  (\<lambda>(location, loadAssembly).
                     forEachDo (transliterateAssembly_body env options location loadAssembly) langs)
                  m s))"
proof (rule step_forEachDo')
  fix x s'
  assume x: "x \<in> set m"
  obtain d f where df: "x = (d, f)" by (cases x)
  with x assms have "f = loader env d" "d \<in> set dirs" by auto
  with df show "step run_event (outputs env dirs langs) s'
           (snd ((case x of (location, loadAssembly) \<Rightarrow>
                   forEachDo (transliterateAssembly_body env options location loadAssembly) langs) s'))"
    by (simp add: step_languages)
qed

lemma languages_written:
  fixes env :: "('r, 'sn) Collaborators"
  assumes "forEachDo (transliterateAssembly_body env options d (loader env d)) langs s = (Inr u, s')"
  shows "\<forall>l \<in> set langs. written (output_path env d l) s'"
proof -
  have "\<forall>l \<in> {} \<union> set langs. written (output_path env d l) s'"
  proof (rule forEachDo_post [OF assms])
    fix l s1 u1 s2
    assume "transliterateAssembly_body env options d (loader env d) l s1 = (Inr u1, s2)"
    then show "written (output_path env d l) s2"
      by (simp add: written_def body_written)
  next
    fix z l and s1 :: "('r, 'sn) State"
    assume "l \<in> set langs" "written (output_path env d z) s1"
    moreover have "step run_event {output_path env d l} s1
        (snd (transliterateAssembly_body env options d (loader env d) l s1))"
      by (intro step_body step_loader) simp_all
    ultimately show "written (output_path env d z)
        (snd (transliterateAssembly_body env options d (loader env d) l s1))"
      by (auto intro: step_written)
  qed simp
  then show ?thesis by simp
qed

lemma loops_written:
  fixes env :: "('r, 'sn) Collaborators"
  assumes run: "forEachDo
                  (\<lambda>(location, loadAssembly).
                     forEachDo (transliterateAssembly_body env options location loadAssembly) langs)
                  m s = (Inr u, s')"
    and m: "\<forall>(d, f) \<in> set m. f = loader env d"
  shows "\<forall>x \<in> set m. \<forall>l \<in> set langs. written (output_path env (fst x) l) s'"
proof -
  have "\<forall>x \<in> {} \<union> set m. \<forall>l \<in> set langs. written (output_path env (fst x) l) s'"
  proof (rule forEachDo_post [OF run])
    fix x s1 u1 s2
    assume x: "x \<in> set m"
      and b: "(case x of (location, loadAssembly) \<Rightarrow>
                 forEachDo (transliterateAssembly_body env options location loadAssembly) langs) s1
              = (Inr u1, s2)"
    obtain d f where df: "x = (d, f)" by (cases x)
    with x m have f: "f = loader env d" by auto
    from b df f show "\<forall>l \<in> set langs. written (output_path env (fst x) l) s2"
      by (simp add: languages_written)
  next
    fix z y and s1 :: "('r, 'sn) State"
    assume y: "y \<in> set m"
      and z: "\<forall>l \<in> set langs. written (output_path env (fst z) l) s1"
    obtain d f where df: "y = (d, f)" by (cases y)
    with y m have f: "f = loader env d" by auto
    have "step run_event (outputs env [d] langs) s1
            (snd (forEachDo (transliterateAssembly_body env options d (loader env d)) langs s1))"
      by (rule step_languages) simp
    with z df f show "\<forall>l \<in> set langs. written (output_path env (fst z) l)
            (snd ((case y of (location, loadAssembly) \<Rightarrow>
                 forEachDo (transliterateAssembly_body env options location loadAssembly) langs) s1))"
      by (auto intro: step_written)
  qed simp
  then show ?thesis by simp
qed

lemma all_written_loops:
  fixes env :: "('r, 'sn) Collaborators"
  assumes "\<forall>(d, f) \<in> set m. f = loader env d"
  shows "all_written s \<longrightarrow>
         all_written (snd (forEachDo
                  (\<lambda>(location, loadAssembly).
                     forEachDo (transliterateAssembly_body env options location loadAssembly) langs)
                  m s))"
proof (rule forEachDo_rel' [where R = "\<lambda>a b. all_written a \<longrightarrow> all_written b"])
  fix x and s' :: "('r, 'sn) State"
  assume x: "x \<in> set m"
  obtain d f where df: "x = (d, f)" by (cases x)
  with x assms have f: "f = loader env d" by auto
  have "all_written s' \<longrightarrow>
        all_written (snd (forEachDo (transliterateAssembly_body env options d (loader env d)) langs s'))"
    by (rule forEachDo_rel' [where R = "\<lambda>a b. all_written a \<longrightarrow> all_written b"])
       (auto simp: all_written_body)
  with df f show "all_written s' \<longrightarrow>
        all_written (snd ((case x of (location, loadAssembly) \<Rightarrow>
             forEachDo (transliterateAssembly_body env options location loadAssembly) langs) s'))"
    by simp
qed auto

lemma tablet_events_facts:
  "list_all loading_event (tablet_events options)" "registered (tablet_events options) = []"
  by (simp_all add: tablet_events_def split: option.splits)

lemma tablet_phase:
  fixes env :: "('r, 'sn) Collaborators"
  shows "events (snd ((case tablet options of
                 None \<Rightarrow> return_ok ()
               | Some path \<Rightarrow>
                   if path = [] then return_ok () else rosetta_loadTabletFromFile env path) s))
             = events s @ tablet_events options
      \<and> disk (snd ((case tablet options of
                 None \<Rightarrow> return_ok ()
               | Some path \<Rightarrow>
                   if path = [] then return_ok () else rosetta_loadTabletFromFile env path) s))
          = disk s
      \<and> fst ((case tablet options of
                 None \<Rightarrow> return_ok ()
               | Some path \<Rightarrow>
                   if path = [] then return_ok () else rosetta_loadTabletFromFile env path) s)
          \<noteq> Inl StrictModeFailure"
  by (auto simp: return_ok_def rosetta_loadTabletFromFile_def tablet_events_def
        split: option.splits prod.splits)

lemma run_phases:
  fixes env :: "('r, 'sn) Collaborators"
  obtains
    (failed) e sf pre post n where
      "transliterateAssembly env dirs langs options files = (Inl e, sf)"
      "e \<noteq> StrictModeFailure"
      "events sf = pre @ post" "list_all loading_event pre" "list_all run_event post"
      "registered pre = take n dirs" "post \<noteq> [] \<longrightarrow> registered pre = dirs"
      "step (\<lambda>_. True) (outputs env dirs langs) (start env langs options files) sf"
      "all_written sf"
      "post \<noteq> [] \<longrightarrow> pre = tablet_events options @ loading_events env dirs"
  | (finished) s3 pre post where
      "transliterateAssembly env dirs langs options files =
         ((if hasErrors env (printDiagnostics env (rosetta s3)) \<and> strict options = Some True
           then Inl StrictModeFailure else Inr ()),
          s3\<lparr>rosetta := printDiagnostics env (rosetta s3),
             events := events s3 @ [PrintDiagnostics]\<rparr>)"
      "events s3 = pre @ post" "list_all loading_event pre" "list_all run_event post"
      "registered pre = dirs"
      "step (\<lambda>_. True) (outputs env dirs langs) (start env langs options files) s3"
      "all_written s3"
      "\<forall>d \<in> set dirs. \<forall>l \<in> set langs. written (output_path env d l) s3"
      "pre = tablet_events options @ loading_events env dirs"
proof -
  let ?s0 = "start env langs options files"
  let ?T = "case tablet options of
                 None \<Rightarrow> return_ok ()
               | Some path \<Rightarrow>
                   if path = [] then return_ok () else rosetta_loadTabletFromFile env path"
  let ?W = "outputs env dirs langs"
  obtain r1 s1 where T: "?T ?s0 = (r1, s1)" by (cases "?T ?s0")
  define evs1 :: "'sn Event list" where "evs1 = tablet_events options"
  from tablet_phase [where options = options and env = env and s = "?s0"] T
    tablet_events_facts [of options]
  have e1: "events s1 = evs1" "list_all loading_event evs1" "registered evs1 = []"
      "disk s1 = disk ?s0" "r1 \<noteq> Inl StrictModeFailure"
    by (auto simp: start_def evs1_def)
  have st1: "step (\<lambda>_. True) ?W ?s0 s1"
    using e1 by (simp add: step_def start_def list_all_iff)
  have aw1: "all_written s1"
    using e1 by (auto simp: all_written_def list_all_iff loading_event_def)
  show ?thesis
  proof (cases r1)
    case (Inl e)
    with T have "transliterateAssembly env dirs langs options files = (Inl e, s1)"
      by (simp add: transliterateAssembly_def and_then_def)
    then show ?thesis
      using e1 Inl st1 aw1
      by (intro failed [of e s1 evs1 "[]" 0]) simp_all
  next
    case (Inr u1)
    obtain r2 s2 where L: "loadAssemblies env dirs s1 = (r2, s2)"
      by (cases "loadAssemblies env dirs s1")
    have "\<exists>evs n. events s2 = events s1 @ evs \<and> list_all loading_event evs
        \<and> registered evs = take n dirs
        \<and> (\<not> isl r2 \<longrightarrow> evs = loading_events env dirs)
        \<and> disk s2 = disk s1"
      using loadAssemblies_loop_events [of env dirs "[]" s1] L
      unfolding loadAssemblies_def by simp
    then obtain evs2 n where
      e2: "events s2 = events s1 @ evs2" "list_all loading_event evs2"
        "registered evs2 = take n dirs"
        "\<not> isl r2 \<longrightarrow> evs2 = loading_events env dirs"
        "disk s2 = disk s1"
      by blast
    have pre: "list_all loading_event (evs1 @ evs2)" "registered (evs1 @ evs2) = take n dirs"
      using e1 e2 by (simp_all add: registered_append)
    have st2: "step (\<lambda>_. True) ?W ?s0 s2"
      using st1 e2 by (auto simp: step_def list_all_iff)
    have aw2: "all_written s2"
      using aw1 e2 by (auto simp: all_written_def list_all_iff loading_event_def)
    have r2_calm: "r2 \<noteq> Inl StrictModeFailure"
      using calmD [OF calm_loadAssemblies_loop, of env dirs "[]" s1 s2] L
      by (auto simp: loadAssemblies_def)
    show ?thesis
    proof (cases r2)
      case (Inl e)
      with T Inr L have "transliterateAssembly env dirs langs options files = (Inl e, s2)"
        by (simp add: transliterateAssembly_def and_then_def)
      then show ?thesis
        using e1 e2 pre Inl st2 aw2 r2_calm
        by (intro failed [of e s2 "evs1 @ evs2" "[]" n]) simp_all
    next
      case (Inr m)
      with L have entries: "\<forall>(d, f) \<in> set m. f = loader env d" "fst ` set m = set dirs"
        using loadAssemblies_loop_entries [of env dirs "[]" s1 m s2]
        by (auto simp: loadAssemblies_def)
      from Inr e2 have shape: "evs1 @ evs2 = tablet_events options @ loading_events env dirs"
        by (simp add: evs1_def)
      from Inr e2 have reg: "registered (evs1 @ evs2) = dirs"
        by (simp add: registered_append e1)
      let ?loops = "forEachDo
                  (\<lambda>(location, loadAssembly).
                     forEachDo (transliterateAssembly_body env options location loadAssembly) langs)
                  m"
      obtain r3 s3 where P: "?loops s2 = (r3, s3)" by (cases "?loops s2")
      have st23: "step run_event ?W s2 s3"
        using step_loops [OF entries(1), of dirs langs s2 options] entries(2) P by simp
      then obtain evs3 where e3: "events s3 = events s2 @ evs3" "list_all run_event evs3"
        by (auto simp: step_def)
      have st3: "step (\<lambda>_. True) ?W ?s0 s3"
        using st2 step_mono [OF st23, of "\<lambda>_. True" ?W] by (auto intro: step_trans)
      have aw3: "all_written s3"
        using all_written_loops [OF entries(1), of s2 options langs] aw2 P by simp
      have r3_calm: "r3 \<noteq> Inl StrictModeFailure"
      proof -
        have "calm ?loops"
        proof (rule calm_forEachDo)
          fix x
          assume "x \<in> set m"
          show "calm (case x of (location, loadAssembly) \<Rightarrow>
                   forEachDo (transliterateAssembly_body env options location loadAssembly) langs)"
            using \<open>x \<in> set m\<close> entries(1)
            by (cases x) (auto intro!: calm_forEachDo calm_body calm_loader)
        qed
        with P show ?thesis by (auto dest: calmD)
      qed
      show ?thesis
      proof (cases r3)
        case (Inl e)
        with T \<open>r1 = Inr u1\<close> L \<open>r2 = Inr m\<close> P
        have "transliterateAssembly env dirs langs options files = (Inl e, s3)"
          by (simp add: transliterateAssembly_def and_then_def)
        then show ?thesis
          using e1 e2 e3 pre reg Inl st3 aw3 r3_calm shape
          by (intro failed [of e s3 "evs1 @ evs2" evs3 n]) simp_all
      next
        case (Inr u3)
        with T \<open>r1 = Inr u1\<close> L \<open>r2 = Inr m\<close> P
        have run: "transliterateAssembly env dirs langs options files =
         ((if hasErrors env (printDiagnostics env (rosetta s3)) \<and> strict options = Some True
           then Inl StrictModeFailure else Inr ()),
          s3\<lparr>rosetta := printDiagnostics env (rosetta s3),
             events := events s3 @ [PrintDiagnostics]\<rparr>)"
          by (simp add: transliterateAssembly_def and_then_def rosetta_printDiagnostics_def
                throw_def return_ok_def)
        have wr: "\<forall>d \<in> set dirs. \<forall>l \<in> set langs. written (output_path env d l) s3"
          using loops_written [OF P [unfolded Inr] entries(1)] entries(2) by force
        show ?thesis
          using run e1 e2 e3 pre reg st3 aw3 wr shape
          by (intro finished [of s3 "evs1 @ evs2" evs3]) simp_all
      qed
    qed
  qed
qed


section \<open>The loader\<close>

text \<open>
  C1. Where no file that a run writes is the assembly file of a directory of the run, a whole
  run leaves the assembly file of every directory as it was, so the loader of the directory
  returns after the run the assembly it returned before it; and one iteration, for any
  directory and language of the run and from any state, with all it changes and writes,
  leaves what the loader of every directory returns as it was. The assembly an invocation
  returns is the one on disk, whatever was done to the assembly of an earlier invocation.
\<close>

theorem loader_fresh_copies:
  fixes env :: "('r, 'sn) Collaborators"
  assumes sep: "\<forall>d \<in> set dirs. \<forall>d' \<in> set dirs. \<forall>l \<in> set langs.
                  resolve env d' (SPEC_FILE_NAME env @ ''.'' @ l) \<noteq> resolve env d (SPEC_FILE_NAME env)"
  shows "(\<forall>d \<in> set dirs.
            disk (snd (transliterateAssembly env dirs langs options files))
                 (resolve env d (SPEC_FILE_NAME env))
              = files (resolve env d (SPEC_FILE_NAME env))
            \<and> fst (loader env d (snd (transliterateAssembly env dirs langs options files)))
              = fst (loader env d (start env langs options files)))
       \<and> (\<forall>d \<in> set dirs. \<forall>d' \<in> set dirs. \<forall>l \<in> set langs. \<forall>s.
            fst (loader env d
                   (snd (transliterateAssembly_body env options d' (loader env d') l s)))
              = fst (loader env d s))"
proof (intro conjI ballI allI)
  fix d
  assume d: "d \<in> set dirs"
  let ?p = "resolve env d (SPEC_FILE_NAME env)"
  have out: "?p \<notin> outputs env dirs langs"
    using sep d unfolding outputs_def output_path_def by (auto; metis)
  have "disk (snd (transliterateAssembly env dirs langs options files)) ?p
                 = disk (start env langs options files) ?p"
  proof (cases rule: run_phases [of env dirs langs options files])
    case (failed e sf pre post n)
    with out show ?thesis by (simp add: step_def)
  next
    case (finished s3 pre post)
    with out show ?thesis by (simp add: step_def)
  qed
  then show "disk (snd (transliterateAssembly env dirs langs options files)) ?p = files ?p"
    and "fst (loader env d (snd (transliterateAssembly env dirs langs options files)))
              = fst (loader env d (start env langs options files))"
    by (simp_all add: loader_result start_def)
next
  fix d d' l and s :: "('r, 'sn) State"
  assume d: "d \<in> set dirs" "d' \<in> set dirs" "l \<in> set langs"
  let ?p = "resolve env d (SPEC_FILE_NAME env)"
  have "step run_event {output_path env d' l} s
          (snd (transliterateAssembly_body env options d' (loader env d') l s))"
    by (intro step_body step_loader) simp_all
  moreover have "?p \<noteq> output_path env d' l"
    using sep d unfolding output_path_def by metis
  ultimately have "disk (snd (transliterateAssembly_body env options d' (loader env d') l s)) ?p
                   = disk s ?p"
    by (simp add: step_def)
  then show "fst (loader env d
                   (snd (transliterateAssembly_body env options d' (loader env d') l s)))
              = fst (loader env d s)"
    by (simp add: loader_result)
qed

theorem loader_fresh_copies_witness:
  "''pkg/.jsii.python'' \<noteq> ''pkg/.jsii''
   \<and> disk (snd (transliterateAssembly test_env [''pkg''] [''python''] test_options
                  (test_files test_enum))) ''pkg/.jsii''
       = Some (Json (test_assembly test_enum))
   \<and> fst (loader test_env ''pkg''
             (snd (transliterateAssembly test_env [''pkg''] [''python''] test_options
                     (test_files test_enum))))
       = Inr (test_assembly test_enum)"
  using loader_fresh_copies [where env = test_env and dirs = "[''pkg'']"
      and langs = "[''python'']" and options = test_options
      and files = "test_files test_enum"]
  by (simp add: test_env_def test_files_def loader_def readJson_def start_def)


section \<open>The walk\<close>

text \<open>
  C2, as amended. For a type whose kind is none of Class, Interface and Enum the walk
  translates the Docs of the type itself and nothing else of the type, and then raises the
  unsupported-kind error (or the exception of that translation); and an iteration whose
  assembly holds such a type fails, leaves every file as it was and writes nothing.
\<close>

theorem unsupported_kind_walk:
  fixes env :: "('r, 'sn) Collaborators"
  shows "(kind ty = OtherKind k \<longrightarrow>
      transliterateType env l wd lo ty s =
        (case translateDocs env l wd lo (docs ty) s of
           (Inl e, s') \<Rightarrow> (Inl e, s')
         | (Inr d, s') \<Rightarrow> (Inl (UnsupportedTypeKind k), s')))
   \<and> (disk s0 (resolve env location (SPEC_FILE_NAME env)) = Some (Json a)
        \<and> types a = Some ts \<and> (n, ty) \<in> set ts \<and> kind ty = OtherKind k \<longrightarrow>
      isl (fst (transliterateAssembly_body env options location (loader env location) l s0))
      \<and> disk (snd (transliterateAssembly_body env options location (loader env location) l s0))
          = disk s0
      \<and> (\<forall>p. WriteJson p
               \<in> set (events (snd (transliterateAssembly_body env options location
                                      (loader env location) l s0)))
             \<longrightarrow> WriteJson p \<in> set (events s0)))"
proof (intro conjI impI)
  assume "kind ty = OtherKind k"
  then show "transliterateType env l wd lo ty s =
        (case translateDocs env l wd lo (docs ty) s of
           (Inl e, s') \<Rightarrow> (Inl e, s')
         | (Inr d, s') \<Rightarrow> (Inl (UnsupportedTypeKind k), s'))"
    by (rule walk_OtherKind)
next
  assume a: "disk s0 (resolve env location (SPEC_FILE_NAME env)) = Some (Json a)
        \<and> types a = Some ts \<and> (n, ty) \<in> set ts \<and> kind ty = OtherKind k"
  let ?r = "transliterateAssembly_body env options location (loader env location) l s0"
  from a have load: "loader env location s0
      = (Inr a, s0\<lparr>events := events s0 @ [ReadJson (resolve env location (SPEC_FILE_NAME env))]\<rparr>)"
    by (simp add: loader_def readJson_def)
  have q: "\<And>s. step quiet_event {} s (snd (loader env location s))"
    by (rule step_loader) simp
  from body_bad_type [OF load _ _ _ q, where ts = ts and n = n and ty = ty and k = k
      and options = options and l = l] a
  have b: "isl (fst ?r)" "step quiet_event {} s0 (snd ?r)"
    by auto
  from b(1) show "isl (fst ?r)" .
  from b(2) show "disk (snd ?r) = disk s0"
    by (auto simp: step_def)
  from b(2) show "\<forall>p. WriteJson p \<in> set (events (snd ?r)) \<longrightarrow> WriteJson p \<in> set (events s0)"
    by (fastforce simp: step_def list_all_iff)
qed

theorem unsupported_kind_walk_witness:
  "kind test_alias = OtherKind ''alias''
   \<and> transliterateType test_env ''python'' ''pkg'' None test_alias test_state =
       (Inl (UnsupportedTypeKind ''alias''),
        test_state\<lparr>events := [TranslateSnippet ''x'' ''python'']\<rparr>)
   \<and> isl (fst (transliterateAssembly_body test_env test_options ''pkg'' (loader test_env ''pkg'')
                  ''python''
                  (test_state\<lparr>disk := (test_files test_alias)\<rparr>)))
   \<and> disk (snd (transliterateAssembly_body test_env test_options ''pkg''
                  (loader test_env ''pkg'') ''python''
                  (test_state\<lparr>disk := (test_files test_alias)\<rparr>)))
       = test_files test_alias"
  using unsupported_kind_walk [where env = test_env and ty = test_alias and k = "''alias''"
      and l = "''python''" and wd = "''pkg''" and lo = None and s = test_state
      and s0 = "test_state\<lparr>disk := (test_files test_alias)\<rparr>"
      and location = "''pkg''" and a = "test_assembly test_alias"
      and ts = "[(''pkg.Alias'', test_alias)]" and n = "''pkg.Alias''" and options = test_options]
  by (simp add: test_simps translateDocs_def transliterateDocs_def rosetta_translateSnippet_def
        and_then_def return_ok_def thrown_def)

text \<open>Without the amendment C2 fails: the type of an unsupported kind below has an example
  in its own Docs, and the engine is asked to translate it before the error is raised.\<close>

theorem unsupported_kind_counterexample:
  "transliterateType test_env ''python'' ''pkg'' None test_alias test_state =
     (Inl (UnsupportedTypeKind ''alias''),
      test_state\<lparr>events := [TranslateSnippet ''x'' ''python'']\<rparr>)"
  by (simp add: run_simps test_simps)

text \<open>
  C3, as amended. For an Enum whose members are present the walk is the callback run over
  the Docs of the type itself and then the Docs of each member, in order, and over no other
  node: the type it returns differs from the one it was given in those Docs only.
\<close>

theorem enum_walk:
  "kind ty = Enum \<and> members ty = Some ms \<longrightarrow>
     transliterateType env l wd lo ty s =
       (case forEach (translateDocs env l wd lo) (docs ty # map docs ms) s of
          (Inl e, s') \<Rightarrow> (Inl e, s')
        | (Inr ds, s') \<Rightarrow>
            (Inr (ty\<lparr>docs := hd ds, members := Some (put_docs ms (tl ds))\<rparr>), s'))"
  using walk_Enum [of ty ms env l wd lo s] by blast

theorem enum_walk_witness:
  "kind test_rich_enum = Enum
   \<and> members test_rich_enum =
       Some [\<lparr>docs = Some \<lparr>example = Some ''a'', summary = None\<rparr>,
              member_name = ''SMALL''\<rparr>,
             \<lparr>docs = None, member_name = ''MEDIUM''\<rparr>,
             \<lparr>docs = Some \<lparr>example = Some ''!'', summary = None\<rparr>,
              member_name = ''LARGE''\<rparr>]
   \<and> transliterateType test_env ''python'' ''pkg'' None test_rich_enum test_state =
     (Inr (test_rich_enum
             \<lparr>docs := Some \<lparr>example = Some (prefixDisclaimer
                  \<lparr>language = ''python'', source = ''t'', didCompile = True\<rparr>),
                summary = None\<rparr>,
              members :=
                Some [\<lparr>docs = Some \<lparr>example = Some (prefixDisclaimer
                               \<lparr>language = ''python'', source = ''a'', didCompile = True\<rparr>),
                             summary = None\<rparr>,
                       member_name = ''SMALL''\<rparr>,
                      \<lparr>docs = None, member_name = ''MEDIUM''\<rparr>,
                      \<lparr>docs = Some \<lparr>example = Some (prefixDisclaimer
                               \<lparr>language = ''python'', source = ''!'', didCompile = False\<rparr>),
                             summary = None\<rparr>,
                       member_name = ''LARGE''\<rparr>]\<rparr>),
      test_state\<lparr>rosetta := 1,
                 events := [TranslateSnippet ''t'' ''python'', TranslateSnippet ''a'' ''python'',
                            TranslateSnippet ''!'' ''python'']\<rparr>)"
  using enum_walk [where env = test_env and ty = test_rich_enum
      and ms = "[\<lparr>docs = Some \<lparr>example = Some ''a'', summary = None\<rparr>,
                  member_name = ''SMALL''\<rparr>,
                 \<lparr>docs = None, member_name = ''MEDIUM''\<rparr>,
                 \<lparr>docs = Some \<lparr>example = Some ''!'', summary = None\<rparr>,
                  member_name = ''LARGE''\<rparr>]"
      and l = "''python''" and wd = "''pkg''" and lo = None and s = test_state]
  by (simp add: test_simps translateDocs_def transliterateDocs_def rosetta_translateSnippet_def
        and_then_def return_ok_def thrown_def put_docs_def)

text \<open>Without the amendment C3 fails: no member of the Enum below has Docs, and the walk
  translates the example of the type's own Docs.\<close>

theorem enum_counterexample:
  "map docs (case members test_enum of None \<Rightarrow> [] | Some ms \<Rightarrow> ms) = [None]
   \<and> transliterateType test_env ''python'' ''pkg'' None test_enum test_state =
     (Inr (test_enum\<lparr>docs := Some \<lparr>example = Some (prefixDisclaimer
               \<lparr>language = ''python'', source = ''x'', didCompile = True\<rparr>), summary = None\<rparr>\<rparr>),
      test_state\<lparr>events := [TranslateSnippet ''x'' ''python'']\<rparr>)"
  by (simp add: run_simps test_simps)


section \<open>The disclaimer: theorems\<close>

text \<open>
  C4. For a translation that did not compile and whose language is neither python nor
  ruby, the composed text is exactly the line
  \<^verbatim>\<open>// This example was automatically transliterated with incomplete type information. It may not work as-is.\<close>,
  the line \<^verbatim>\<open>// See https://github.com/aws/jsii/issues/826 for more information.\<close>, an empty
  line and the translated source. For python and ruby the marker is \<^verbatim>\<open>#\<close>, for every other
  language (known or not) it is \<^verbatim>\<open>//\<close>. When the translation did compile only the wording
  of the first line differs; the second line and the empty line are the same.
\<close>

theorem prefixDisclaimer_text:
  "(language t \<notin> {''python'', ''ruby''} \<and> \<not> didCompile t \<longrightarrow>
      prefixDisclaimer t =
        ''// This example was automatically transliterated with incomplete type information. It may not work as-is.''
        @ [CHR 0x0A] @ ''// See https://github.com/aws/jsii/issues/826 for more information.''
        @ [CHR 0x0A] @ [CHR 0x0A] @ source t)
   \<and> (language t \<in> {''python'', ''ruby''} \<and> \<not> didCompile t \<longrightarrow>
      prefixDisclaimer t =
        ''# This example was automatically transliterated with incomplete type information. It may not work as-is.''
        @ [CHR 0x0A] @ ''# See https://github.com/aws/jsii/issues/826 for more information.''
        @ [CHR 0x0A] @ [CHR 0x0A] @ source t)
   \<and> (language t \<notin> {''python'', ''ruby''} \<and> didCompile t \<longrightarrow>
      prefixDisclaimer t =
        ''// This example was automatically transliterated.''
        @ [CHR 0x0A] @ ''// See https://github.com/aws/jsii/issues/826 for more information.''
        @ [CHR 0x0A] @ [CHR 0x0A] @ source t)
   \<and> (language t \<in> {''python'', ''ruby''} \<and> didCompile t \<longrightarrow>
      prefixDisclaimer t =
        ''# This example was automatically transliterated.''
        @ [CHR 0x0A] @ ''# See https://github.com/aws/jsii/issues/826 for more information.''
        @ [CHR 0x0A] @ [CHR 0x0A] @ source t)"
  by (simp add: prefixDisclaimer_def commentToken_def)

theorem prefixDisclaimer_text_witness:
  "prefixDisclaimer \<lparr>language = ''java'', source = ''x'', didCompile = False\<rparr> =
     ''// This example was automatically transliterated with incomplete type information. It may not work as-is.''
     @ [CHR 0x0A] @ ''// See https://github.com/aws/jsii/issues/826 for more information.''
     @ [CHR 0x0A] @ [CHR 0x0A] @ ''x''
   \<and> prefixDisclaimer \<lparr>language = ''ruby'', source = ''y'', didCompile = False\<rparr> =
     ''# This example was automatically transliterated with incomplete type information. It may not work as-is.''
     @ [CHR 0x0A] @ ''# See https://github.com/aws/jsii/issues/826 for more information.''
     @ [CHR 0x0A] @ [CHR 0x0A] @ ''y''
   \<and> prefixDisclaimer \<lparr>language = ''klingon'', source = ''z'', didCompile = True\<rparr> =
     ''// This example was automatically transliterated.''
     @ [CHR 0x0A] @ ''// See https://github.com/aws/jsii/issues/826 for more information.''
     @ [CHR 0x0A] @ [CHR 0x0A] @ ''z''
   \<and> prefixDisclaimer \<lparr>language = ''python'', source = ''w'', didCompile = True\<rparr> =
     ''# This example was automatically transliterated.''
     @ [CHR 0x0A] @ ''# See https://github.com/aws/jsii/issues/826 for more information.''
     @ [CHR 0x0A] @ [CHR 0x0A] @ ''w''"
  using prefixDisclaimer_text [of "\<lparr>language = ''java'', source = ''x'', didCompile = False\<rparr>"]
    prefixDisclaimer_text [of "\<lparr>language = ''ruby'', source = ''y'', didCompile = False\<rparr>"]
    prefixDisclaimer_text [of "\<lparr>language = ''klingon'', source = ''z'', didCompile = True\<rparr>"]
    prefixDisclaimer_text [of "\<lparr>language = ''python'', source = ''w'', didCompile = True\<rparr>"]
  by simp


section \<open>The walk over classes and interfaces\<close>

text \<open>
  C5. For a Class the walk is the callback run over the Docs of the type, the Docs of the
  initializer (when there is one) and then the nodes of the handling of an interface: every
  method with its parameters, then every property. For an Interface it is the callback run
  over the Docs of the type and the same nodes. An empty or absent collection adds no node.
\<close>

theorem class_walk:
  "(kind ty = Class \<longrightarrow>
      transliterateType env l wd lo ty s =
        (case forEach (translateDocs env l wd lo)
                (docs ty # Initializer_docs ty # Interface_docs ty) s of
           (Inl e, s') \<Rightarrow> (Inl e, s')
         | (Inr ds, s') \<Rightarrow> (Inr (put_Class_docs ty ds), s')))
   \<and> (kind ty = Interface \<longrightarrow>
      transliterateType env l wd lo ty s =
        (case forEach (translateDocs env l wd lo) (docs ty # Interface_docs ty) s of
           (Inl e, s') \<Rightarrow> (Inl e, s')
         | (Inr ds, s') \<Rightarrow> (Inr (put_Interface_docs (ty\<lparr>docs := hd ds\<rparr>) (tl ds)), s')))"
  using walk_Class [of ty env l wd lo s] walk_Interface [of ty env l wd lo s] by blast

theorem class_walk_witness:
  "kind test_class = Class
   \<and> transliterateType test_env ''java'' ''pkg'' None test_class test_state =
     (Inr (test_class\<lparr>initializer :=
             Some \<lparr>docs = Some \<lparr>example = Some (prefixDisclaimer
                      \<lparr>language = ''java'', source = ''!'', didCompile = False\<rparr>),
                    summary = None\<rparr>,
                   initializer_parameters = None\<rparr>\<rparr>),
      test_state\<lparr>rosetta := 1, events := [TranslateSnippet ''!'' ''java'']\<rparr>)
   \<and> kind test_interface = Interface
   \<and> transliterateType test_env ''java'' ''pkg'' None test_interface test_state =
     (Inr (test_interface\<lparr>methods :=
             Some [\<lparr>docs = Some \<lparr>example = Some (prefixDisclaimer
                            \<lparr>language = ''java'', source = ''m'', didCompile = True\<rparr>),
                          summary = None\<rparr>,
                    method_name = ''run'',
                    parameters =
                      Some [\<lparr>docs = Some \<lparr>example = Some ''?'', summary = None\<rparr>,
                             parameter_name = ''arg''\<rparr>]\<rparr>]\<rparr>),
      test_state\<lparr>events := [TranslateSnippet ''m'' ''java'', TranslateSnippet ''?'' ''java'']\<rparr>)"
  using class_walk [where env = test_env and ty = test_class
      and l = "''java''" and wd = "''pkg''" and lo = None and s = test_state]
    class_walk [where env = test_env and ty = test_interface
      and l = "''java''" and wd = "''pkg''" and lo = None and s = test_state]
  by (simp add: test_simps translateDocs_def transliterateDocs_def rosetta_translateSnippet_def
        and_then_def return_ok_def thrown_def put_docs_def put_Class_docs_def
        put_Interface_docs_def Interface_docs_def Initializer_docs_def Method_docs_def
        put_Method_docs_def)

text \<open>
  C6. For a Docs node with a non-empty example that is prepared without an exception: when
  the engine returns no translation, the node is returned as it was and no error is
  raised; when it returns a translation, the example is the text of \<open>prefixDisclaimer\<close> for
  that translation; and a node comes back changed only when the engine returned a
  translation.
\<close>

theorem untranslated_example_unchanged:
  "(\<forall>ex sn r'. example d = Some ex \<and> ex \<noteq> []
        \<and> fixturize env
             (typeScriptSnippetFromSource env ex ''example'' True [(PROJECT_DIRECTORY env, wd)])
             lo = Inr sn
        \<and> translateSnippet env (rosetta s) sn l = (Inr None, r') \<longrightarrow>
        transliterateDocs env l wd lo (Some d) s =
          (Inr (Some d), s\<lparr>rosetta := r', events := events s @ [TranslateSnippet sn l]\<rparr>))
   \<and> (\<forall>ex sn r' t. example d = Some ex \<and> ex \<noteq> []
        \<and> fixturize env
             (typeScriptSnippetFromSource env ex ''example'' True [(PROJECT_DIRECTORY env, wd)])
             lo = Inr sn
        \<and> translateSnippet env (rosetta s) sn l = (Inr (Some t), r') \<longrightarrow>
        transliterateDocs env l wd lo (Some d) s =
          (Inr (Some (d\<lparr>example := Some (prefixDisclaimer t)\<rparr>)),
           s\<lparr>rosetta := r', events := events s @ [TranslateSnippet sn l]\<rparr>))
   \<and> (\<forall>d'. fst (transliterateDocs env l wd lo (Some d) s) = Inr (Some d') \<and> d' \<noteq> d \<longrightarrow>
        (\<exists>sn t r'. translateSnippet env (rosetta s) sn l = (Inr (Some t), r')
           \<and> d' = d\<lparr>example := Some (prefixDisclaimer t)\<rparr>))"
  by (auto simp: transliterateDocs_def return_ok_def throw_def and_then_def
        rosetta_translateSnippet_def thrown_def
        split: option.splits if_splits sum.splits prod.splits)

theorem untranslated_example_unchanged_witness:
  "transliterateDocs test_env ''python'' ''pkg'' False
     (Some \<lparr>example = Some ''?'', summary = None\<rparr>) test_state =
     (Inr (Some \<lparr>example = Some ''?'', summary = None\<rparr>),
      test_state\<lparr>events := [TranslateSnippet ''?'' ''python'']\<rparr>)
   \<and> transliterateDocs test_env ''python'' ''pkg'' False
     (Some \<lparr>example = Some ''x'', summary = None\<rparr>) test_state =
     (Inr (Some \<lparr>example = Some (prefixDisclaimer
               \<lparr>language = ''python'', source = ''x'', didCompile = True\<rparr>), summary = None\<rparr>),
      test_state\<lparr>events := [TranslateSnippet ''x'' ''python'']\<rparr>)"
  using untranslated_example_unchanged [where env = test_env
      and d = "\<lparr>example = Some ''?'', summary = None\<rparr>"
      and l = "''python''" and wd = "''pkg''" and lo = False and s = test_state]
    untranslated_example_unchanged [where env = test_env
      and d = "\<lparr>example = Some ''x'', summary = None\<rparr>"
      and l = "''python''" and wd = "''pkg''" and lo = False and s = test_state]
  by (simp add: test_simps)


section \<open>Registration and the end of a run\<close>

text \<open>
  C7, as amended. The events of a run split in two parts. The first part has only events of
  loading, and the directories registered in it are the directories given, entry by entry
  and in order, up to the entry at which loading failed. As soon as anything follows the
  loading, or the run succeeds, the first part is the loading of the tablet, if any, and
  then for each entry of the directories, in order, its reading and its registration. The
  second part, with every iteration for every language, registers nothing.
\<close>

theorem registered_once_per_entry:
  fixes env :: "('r, 'sn) Collaborators"
  shows "\<exists>pre post.
           events (snd (transliterateAssembly env dirs langs options files)) = pre @ post
           \<and> list_all loading_event pre
           \<and> (\<exists>n. registered pre = take n dirs)
           \<and> registered post = []
           \<and> (post \<noteq> [] \<or> fst (transliterateAssembly env dirs langs options files) = Inr ()
                \<longrightarrow> pre = tablet_events options @ loading_events env dirs
                  \<and> registered pre = dirs)"
proof (cases rule: run_phases [of env dirs langs options files])
  case (failed e sf pre post n)
  have "registered post = []"
    using failed(5) by (intro registered_none) (auto simp: list_all_iff)
  with failed show ?thesis
    by (intro exI [of _ pre] exI [of _ post]) auto
next
  case (finished s3 pre post)
  have "registered (post @ [PrintDiagnostics]) = []"
    using finished(4) by (intro registered_none) (auto simp: list_all_iff)
  with finished show ?thesis
    by (intro exI [of _ pre] exI [of _ "post @ [PrintDiagnostics]"]) (auto intro: exI [of _ "length dirs"])
qed

theorem registered_once_per_entry_witness:
  "fst (transliterateAssembly test_env [''pkg'', ''lib''] [''python'', ''java''] test_options
          (test_files test_enum)) = Inr ()
   \<and> registered
        (events (snd (transliterateAssembly test_env [''pkg'', ''lib''] [''python'', ''java'']
                        test_options
                        (test_files test_enum))))
       = [''pkg'', ''lib'']"
proof -
  let ?run = "transliterateAssembly test_env [''pkg'', ''lib''] [''python'', ''java''] test_options
          (test_files test_enum)"
  have ok: "fst ?run = Inr ()"
    by (simp add: run_simps test_simps)
  from registered_once_per_entry [where env = test_env and dirs = "[''pkg'', ''lib'']"
      and langs = "[''python'', ''java'']" and options = test_options
      and files = "test_files test_enum"]
  obtain pre post where
    "events (snd ?run) = pre @ post" "registered post = []"
    "post \<noteq> [] \<or> fst ?run = Inr () \<longrightarrow>
       pre = tablet_events test_options @ loading_events test_env [''pkg'', ''lib'']
       \<and> registered pre = [''pkg'', ''lib'']"
    by blast
  with ok show ?thesis
    by (simp add: registered_append tablet_events_facts)
qed

text \<open>Without the amendment C7 fails: a directory given twice is registered twice.\<close>

theorem registration_counterexample:
  "count_list
     (events (snd (transliterateAssembly test_env [''pkg'', ''pkg''] [''python''] test_options
                     (test_files test_enum))))
     (AddAssembly ''pkg'') = 2"
  by (simp add: run_simps test_simps)





section \<open>The Docs of the type itself, and absent members\<close>

text \<open>
  C9. The walk begins with the callback on the Docs of the type itself, whatever the kind:
  when that call raises, the walk raises the same and does nothing else; otherwise every
  further event of the walk comes after the events of that call, the type returned carries
  the Docs that call returned, and for an unsupported kind the error is raised in the state
  that call left.
\<close>

theorem type_docs_first:
  "(\<forall>e s1. translateDocs env l wd lo (docs ty) s = (Inl e, s1) \<longrightarrow>
        transliterateType env l wd lo ty s = (Inl e, s1))
   \<and> (\<forall>d s1. translateDocs env l wd lo (docs ty) s = (Inr d, s1) \<longrightarrow>
        (\<exists>evs. events (snd (transliterateType env l wd lo ty s)) = events s1 @ evs)
        \<and> (\<forall>ty'. fst (transliterateType env l wd lo ty s) = Inr ty' \<longrightarrow> docs ty' = d)
        \<and> (\<forall>k. kind ty = OtherKind k \<longrightarrow>
              transliterateType env l wd lo ty s = (Inl (UnsupportedTypeKind k), s1)))"
proof (intro conjI allI impI)
  fix e s1
  assume "translateDocs env l wd lo (docs ty) s = (Inl e, s1)"
  then show "transliterateType env l wd lo ty s = (Inl e, s1)"
    by (simp add: transliterateType_def translateDocs_def and_then_def Let_def)
next
  fix d s1 k
  assume "translateDocs env l wd lo (docs ty) s = (Inr d, s1)" "kind ty = OtherKind k"
  then show "transliterateType env l wd lo ty s = (Inl (UnsupportedTypeKind k), s1)"
    by (simp add: walk_OtherKind)
next
  fix d s1
  assume cb: "translateDocs env l wd lo (docs ty) s = (Inr d, s1)"
  show "\<exists>evs. events (snd (transliterateType env l wd lo ty s)) = events s1 @ evs"
  proof (cases "kind ty")
    case Class
    from walk_after_first [OF cb walk_Class [OF Class]] show ?thesis by blast
  next
    case Interface
    from walk_after_first [OF cb walk_Interface [OF Interface]] show ?thesis by blast
  next
    case Enum
    show ?thesis
    proof (cases "members ty")
      case None
      with Enum cb show ?thesis by (simp add: walk_Enum_absent)
    next
      case (Some ms)
      from walk_after_first [OF cb walk_Enum [OF Enum Some]] show ?thesis by blast
    qed
  next
    case (OtherKind k)
    with cb show ?thesis by (simp add: walk_OtherKind)
  qed
next
  fix d s1 ty'
  assume cb: "translateDocs env l wd lo (docs ty) s = (Inr d, s1)"
    and r: "fst (transliterateType env l wd lo ty s) = Inr ty'"
  show "docs ty' = d"
  proof (cases "kind ty")
    case Class
    from walk_after_first [OF cb walk_Class [OF Class]] r show ?thesis by auto
  next
    case Interface
    from walk_after_first [OF cb walk_Interface [OF Interface]] r show ?thesis by auto
  next
    case Enum
    show ?thesis
    proof (cases "members ty")
      case None
      with Enum cb r show ?thesis by (simp add: walk_Enum_absent)
    next
      case (Some ms)
      from walk_after_first [OF cb walk_Enum [OF Enum Some]] r show ?thesis by auto
    qed
  next
    case (OtherKind k)
    with cb r show ?thesis by (simp add: walk_OtherKind)
  qed
qed

theorem type_docs_first_witness:
  "translateDocs test_env ''python'' ''pkg'' None (docs test_alias) test_state =
     (Inr (Some \<lparr>example = Some (prefixDisclaimer
               \<lparr>language = ''python'', source = ''x'', didCompile = True\<rparr>), summary = None\<rparr>),
      test_state\<lparr>events := [TranslateSnippet ''x'' ''python'']\<rparr>)
   \<and> transliterateType test_env ''python'' ''pkg'' None test_alias test_state =
       (Inl (UnsupportedTypeKind ''alias''),
        test_state\<lparr>events := [TranslateSnippet ''x'' ''python'']\<rparr>)
   \<and> translateDocs test_env ''python'' ''pkg'' None
         (docs (test_alias\<lparr>docs := Some \<lparr>example = Some ''#'', summary = None\<rparr>\<rparr>)) test_state =
       (Inl (Thrown ''fixture not found''), test_state)
   \<and> transliterateType test_env ''python'' ''pkg'' None
         (test_alias\<lparr>docs := Some \<lparr>example = Some ''#'', summary = None\<rparr>\<rparr>) test_state =
       (Inl (Thrown ''fixture not found''), test_state)
   \<and> fst (transliterateType test_env ''python'' ''pkg'' None test_enum test_state) =
       Inr (test_enum\<lparr>docs := Some \<lparr>example = Some (prefixDisclaimer
               \<lparr>language = ''python'', source = ''x'', didCompile = True\<rparr>), summary = None\<rparr>\<rparr>)"
  using type_docs_first [where env = test_env and ty = test_alias
      and l = "''python''" and wd = "''pkg''" and lo = None and s = test_state]
    type_docs_first [where env = test_env
      and ty = "test_alias\<lparr>docs := Some \<lparr>example = Some ''#'', summary = None\<rparr>\<rparr>"
      and l = "''python''" and wd = "''pkg''" and lo = None and s = test_state]
    type_docs_first [where env = test_env and ty = test_enum
      and l = "''python''" and wd = "''pkg''" and lo = None and s = test_state]
  by (simp add: test_simps run_simps put_docs_def)

text \<open>
  C10. For an Enum without \<^verbatim>\<open>members\<close> the walk raises the \<^verbatim>\<open>TypeError\<close> of iterating
  \<^verbatim>\<open>undefined\<close>, after the Docs of the type. For a Class or an Interface the walk never
  raises it, and it does to the type with absent \<^verbatim>\<open>methods\<close>, \<^verbatim>\<open>parameters\<close> and
  \<^verbatim>\<open>properties\<close> what it does to the type with these collections empty.
\<close>

theorem absent_members_not_iterable:
  "(\<forall>d s1. kind ty = Enum \<and> members ty = None
        \<and> translateDocs env l wd lo (docs ty) s = (Inr d, s1) \<longrightarrow>
        transliterateType env l wd lo ty s = (Inl NotIterable, s1))
   \<and> (kind ty = Class \<or> kind ty = Interface \<longrightarrow>
        fst (transliterateType env l wd lo ty s) \<noteq> Inl NotIterable
        \<and> snd (transliterateType env l wd lo (absent_as_empty ty) s)
            = snd (transliterateType env l wd lo ty s)
        \<and> fst (transliterateType env l wd lo (absent_as_empty ty) s)
            = map_sum id absent_as_empty (fst (transliterateType env l wd lo ty s)))"
proof (intro conjI allI impI)
  fix d s1
  assume "kind ty = Enum \<and> members ty = None
        \<and> translateDocs env l wd lo (docs ty) s = (Inr d, s1)"
  then show "transliterateType env l wd lo ty s = (Inl NotIterable, s1)"
    by (simp add: walk_Enum_absent)
next
  assume k: "kind ty = Class \<or> kind ty = Interface"
  show "fst (transliterateType env l wd lo ty s) \<noteq> Inl NotIterable"
  proof
    assume a: "fst (transliterateType env l wd lo ty s) = Inl NotIterable"
    from k have "\<exists>xs. fst (forEach (translateDocs env l wd lo) xs s) = Inl NotIterable"
    proof
      assume "kind ty = Class"
      from a [unfolded walk_Class [OF this]] show ?thesis
        by (intro exI [of _ "docs ty # Initializer_docs ty # Interface_docs ty"])
           (auto split: prod.splits sum.splits)
    next
      assume "kind ty = Interface"
      from a [unfolded walk_Interface [OF this]] show ?thesis
        by (intro exI [of _ "docs ty # Interface_docs ty"])
           (auto split: prod.splits sum.splits)
    qed
    then show False
      by (auto dest!: forEach_error translateDocs_error)
  qed
next
  assume k: "kind ty = Class \<or> kind ty = Interface"
  then show "snd (transliterateType env l wd lo (absent_as_empty ty) s)
            = snd (transliterateType env l wd lo ty s)"
    by (auto simp: walk_Class walk_Interface split: prod.splits sum.splits)
next
  assume k: "kind ty = Class \<or> kind ty = Interface"
  then show "fst (transliterateType env l wd lo (absent_as_empty ty) s)
            = map_sum id absent_as_empty (fst (transliterateType env l wd lo ty s))"
    by (auto simp: walk_Class walk_Interface put_Class_docs_absent_as_empty
          put_Interface_docs_absent_as_empty absent_as_empty_update(1) [symmetric]
          split: prod.splits sum.splits)
qed

theorem absent_members_not_iterable_witness:
  "kind (test_enum\<lparr>members := None\<rparr>) = Enum
   \<and> transliterateType test_env ''python'' ''pkg'' None (test_enum\<lparr>members := None\<rparr>) test_state =
       (Inl NotIterable, test_state\<lparr>events := [TranslateSnippet ''x'' ''python'']\<rparr>)
   \<and> kind test_class = Class \<and> methods test_class = None \<and> properties test_class = None
   \<and> fst (transliterateType test_env ''python'' ''pkg'' None test_class test_state)
       \<noteq> Inl NotIterable"
  using absent_members_not_iterable [where env = test_env and ty = "test_enum\<lparr>members := None\<rparr>"
      and l = "''python''" and wd = "''pkg''" and lo = None and s = test_state]
    absent_members_not_iterable [where env = test_env and ty = test_class
      and l = "''python''" and wd = "''pkg''" and lo = None and s = test_state]
  by (simp add: test_simps translateDocs_def transliterateDocs_def rosetta_translateSnippet_def
        and_then_def return_ok_def thrown_def)

end
